theory Spec2Isabelle
  imports Main "HOL-Library.AList"
begin

section \<open>The ImGui module facade (Source/ImGui/Private/ImGuiModule.cpp)\<close>

text \<open>
  The facade routes delegate registration, delegate removal and texture lookups to two
  managers that hang off one static pointer, \<^verbatim>\<open>ImGuiModuleManager\<close>. The functions of
  ImGuiModule.cpp are embedded one by one, with the static pointers and the two console
  variables collected in a state record that every function takes and returns. A failed
  \<^verbatim>\<open>checkf\<close> and a dereference of a null pointer are error values.

  The managers themselves (TextureManager.h, ImGuiContextManager.h, ImGuiContextProxy.h,
  ImGuiTextureHandle.h, ImGuiInteroperability.h, Utilities/WorldContextIndex.h) and the
  engine's multicast delegate are outside the sources at hand. Their operations are modelled
  from the specification; each such definition says so.
\<close>

subsection \<open>Names, indices and texture ids\<close>

type_synonym FName = string

text \<open>The engine's name of nothing.\<close>

definition NAME_None :: FName where
  "NAME_None = ''None''"

type_synonym TextureIndex = int

text \<open>The engine's invalid index.\<close>

definition INDEX_NONE :: TextureIndex where
  "INDEX_NONE = - 1"

text \<open>
  Modelled from the spec: ImGuiInteroperability.h is missing. A texture id "encodes
  slot_index and is otherwise opaque": the id is a wrapper around the index and the two
  conversions of \<^verbatim>\<open>ImGuiInterops\<close> are the wrapping and the unwrapping.
\<close>

datatype ImTextureID = ImTextureID int

definition ToImTextureID :: "TextureIndex \<Rightarrow> ImTextureID" where
  "ToImTextureID Index = ImTextureID Index"

fun ToTextureIndex :: "ImTextureID \<Rightarrow> TextureIndex" where
  "ToTextureIndex (ImTextureID p) = p"

text \<open>
  The texture handle with the two members that \<^verbatim>\<open>HasValidEntry\<close> reads.
\<close>

record FImGuiTextureHandle =
  Name :: FName
  TextureId :: ImTextureID

text \<open>
  Modelled from the spec: ImGuiTextureHandle.h is missing. The getter returns the id that
  the handle carries.
\<close>

definition GetTextureId :: "FImGuiTextureHandle \<Rightarrow> ImTextureID" where
  "GetTextureId h = TextureId h"

text \<open>
  Modelled from the spec: ImGuiTextureHandle.h is missing. The default-constructed handle
  that \<^verbatim>\<open>FindTextureHandle\<close> returns on a miss is the "invalid sentinel id": no name and
  the invalid index.
\<close>

definition DefaultTextureHandle :: FImGuiTextureHandle where
  "DefaultTextureHandle = \<lparr>Name = NAME_None, TextureId = ToImTextureID INDEX_NONE\<rparr>"

subsection \<open>Errors\<close>

text \<open>
  One constructor for each \<^verbatim>\<open>checkf\<close> of ImGuiModule.cpp, one for a dereference of the
  null manager pointer, and \<open>InvalidSlot\<close> for the slot registry's release of a slot that is
  free or out of range.
\<close>

datatype error =
    NullModuleManager
  | NullGEngine
  | NoCurrentWorld
  | ManagerAlreadyExists
  | EditorAlreadyExists
  | NullEditor
  | NullPointerDereference
  | InvalidSlot

subsection \<open>The texture manager: a slot registry of named textures\<close>

type_synonym UTexture2D = nat

type_synonym FTextureEntry = "FName \<times> UTexture2D"

text \<open>
  Modelled from the spec: TextureManager.h is missing. The registry is the spec's
  \<open>slots\<close>, an "ordered sequence of optional (name, payload) pairs, indexed by integer";
  a slot is live when it holds a pair and free when it holds none.
\<close>

record FTextureManager =
  TextureResources :: "FTextureEntry option list"

text \<open>
  Modelled from the spec: an index is in range when it addresses a slot of the sequence.
\<close>

definition IsInRange :: "FTextureManager \<Rightarrow> TextureIndex \<Rightarrow> bool" where
  "IsInRange tm Index = (0 \<le> Index \<and> nat Index < length (TextureResources tm))"

text \<open>
  Modelled from the spec: TextureManager.h is missing. \<open>GetTextureName\<close> returns a name,
  which \<^verbatim>\<open>HasValidEntry\<close> compares with the handle's name: the stored name of a live
  slot. A free slot and an index out of range store no name, and the name returned for them
  is the engine's name of nothing.
\<close>

definition GetTextureName :: "FTextureManager \<Rightarrow> TextureIndex \<Rightarrow> FName" where
  "GetTextureName tm Index =
     (if IsInRange tm Index then
        (case TextureResources tm ! nat Index of
           None \<Rightarrow> NAME_None
         | Some (n, payload) \<Rightarrow> n)
      else NAME_None)"

text \<open>
  Modelled from the spec: \<open>Resolve(index, expected_name)\<close> "returns a reference only if the
  slot is live and its stored name equals expected_name; otherwise NotFound" (\<open>None\<close>).
\<close>

definition Resolve :: "FTextureManager \<Rightarrow> TextureIndex \<Rightarrow> FName \<Rightarrow> UTexture2D option" where
  "Resolve tm Index expected_name =
     (if IsInRange tm Index then
        (case TextureResources tm ! nat Index of
           None \<Rightarrow> None
         | Some (n, payload) \<Rightarrow> if n = expected_name then Some payload else None)
      else None)"

text \<open>
  Modelled from the spec: \<open>Find(name)\<close> is a "linear ... lookup by name over live slots;
  returns an invalid sentinel id if none found". The search runs from the front.
\<close>

fun find_slot :: "FName \<Rightarrow> FTextureEntry option list \<Rightarrow> nat \<Rightarrow> TextureIndex" where
  "find_slot n [] i = INDEX_NONE"
| "find_slot n (None # es) i = find_slot n es (Suc i)"
| "find_slot n (Some (m, payload) # es) i = (if m = n then int i else find_slot n es (Suc i))"

definition FindTextureIndex :: "FTextureManager \<Rightarrow> FName \<Rightarrow> TextureIndex" where
  "FindTextureIndex tm n = find_slot n (TextureResources tm) 0"

text \<open>
  Modelled from the spec: the \<open>free_list\<close>, the indices eligible for reuse. It is read off
  the slots, so that an index is in it exactly when its slot holds no payload.
\<close>

definition free_list :: "FTextureManager \<Rightarrow> nat list" where
  "free_list tm =
     filter (\<lambda>i. TextureResources tm ! i = None) [0 ..< length (TextureResources tm)]"

text \<open>
  Modelled from the spec: \<open>Allocate(name, payload)\<close> "reuses a free index if one exists ...,
  else appends; stores (name, payload); returns the index". The fixed policy taken here is
  the lowest free index.
\<close>

definition Allocate :: "FTextureManager \<Rightarrow> FName \<Rightarrow> UTexture2D \<Rightarrow> TextureIndex \<times> FTextureManager" where
  "Allocate tm n payload =
     (case free_list tm of
        i # _ \<Rightarrow> (int i, tm\<lparr>TextureResources := (TextureResources tm)[i := Some (n, payload)]\<rparr>)
      | [] \<Rightarrow> (int (length (TextureResources tm)),
               tm\<lparr>TextureResources := TextureResources tm @ [Some (n, payload)]\<rparr>))"

text \<open>
  Modelled from the spec: \<open>Release(index)\<close> "clears the slot's payload, adds index to the
  free list"; "releasing an already-free or out-of-range index is a caller error (signals
  InvalidSlot)".
\<close>

definition ReleaseTextureResources :: "FTextureManager \<Rightarrow> TextureIndex \<Rightarrow> error + FTextureManager" where
  "ReleaseTextureResources tm Index =
     (if IsInRange tm Index \<and> TextureResources tm ! nat Index \<noteq> None
      then Inr (tm\<lparr>TextureResources := (TextureResources tm)[nat Index := None]\<rparr>)
      else Inl InvalidSlot)"

subsection \<open>Draw delegates\<close>

type_synonym FImGuiDelegate = nat

type_synonym FDelegateHandle = nat

text \<open>
  Modelled from the spec: the engine's multicast delegate is an "ordered sequence of
  (raw_key, callback) pairs" whose keys are "monotonically increasing per sequence (never
  reused)". The keys come from one counter that all sequences share and that the state
  carries (\<open>NextDelegateID\<close> below): \<open>Add\<close> appends under the counter's value and
  advances it, so the keys of every sequence increase and no key is issued twice.
  \<open>Remove\<close> drops the entries under a key and does nothing when there is none.
\<close>

record FMulticastDelegate =
  Entries :: "(FDelegateHandle \<times> FImGuiDelegate) list"

definition EmptyDelegate :: FMulticastDelegate where
  "EmptyDelegate = \<lparr>Entries = []\<rparr>"

definition Delegate_Add ::
  "FMulticastDelegate \<Rightarrow> FImGuiDelegate \<Rightarrow> nat \<Rightarrow> FDelegateHandle \<times> FMulticastDelegate \<times> nat" where
  "Delegate_Add D d next_id = (next_id, D\<lparr>Entries := Entries D @ [(next_id, d)]\<rparr>, Suc next_id)"

definition Delegate_Remove :: "FMulticastDelegate \<Rightarrow> FDelegateHandle \<Rightarrow> FMulticastDelegate" where
  "Delegate_Remove D k = D\<lparr>Entries := filter (\<lambda>e. fst e \<noteq> k) (Entries D)\<rparr>"

datatype EDelegateCategory = Default | MultiContext

text \<open>
  The handle that the facade builds: the delegate's key, the category and the context index.
  The two-argument form used for the multi-context category leaves the index to the
  constructor's default, which is outside the sources; \<open>0\<close> stands for it and nothing reads it.
\<close>

record FImGuiDelegateHandle =
  Handle :: FDelegateHandle
  Category :: EDelegateCategory
  Index :: int

subsection \<open>The context manager\<close>

text \<open>
  Modelled from the spec: ImGuiContextProxy.h is missing. A context payload owns its
  sequence of draw callbacks.
\<close>

record FImGuiContextProxy =
  OnDraw :: FMulticastDelegate

text \<open>
  Modelled from the spec: ImGuiContextManager.h is missing. The registry "owns one
  draw-callback-list payload per rendering context" under a stable integer index, plus the
  one global multi-context sequence. The contexts are an association list from index to
  proxy, read with \<open>map_of\<close>.
\<close>

record FImGuiContextManager =
  Contexts :: "(int \<times> FImGuiContextProxy) list"
  OnDrawMultiContext :: FMulticastDelegate

text \<open>
  Modelled from the spec: \<open>GetContext(context_index)\<close>, the resolution by index only; a null
  pointer (\<open>None\<close>) when no context lives under the index.
\<close>

definition GetContextProxy :: "FImGuiContextManager \<Rightarrow> int \<Rightarrow> FImGuiContextProxy option" where
  "GetContextProxy cm i = map_of (Contexts cm) i"

text \<open>
  Modelled from the spec: contexts are "created on first reference to a world/editor/standalone
  scope" ("lazily allocated on first use"). The proxy getters that return a reference therefore
  get or create: they return the proxy under the index and the manager in which it is live.
\<close>

definition GetOrCreateContextProxy ::
  "FImGuiContextManager \<Rightarrow> int \<Rightarrow> FImGuiContextProxy \<times> FImGuiContextManager" where
  "GetOrCreateContextProxy cm i =
     (case map_of (Contexts cm) i of
        Some Proxy \<Rightarrow> (Proxy, cm)
      | None \<Rightarrow> (\<lparr>OnDraw = EmptyDelegate\<rparr>,
                 cm\<lparr>Contexts := AList.update i \<lparr>OnDraw = EmptyDelegate\<rparr> (Contexts cm)\<rparr>))"

text \<open>
  A write through a proxy reference or pointer obtained from the manager: the proxy under
  the index is replaced.
\<close>

definition StoreContextProxy ::
  "FImGuiContextManager \<Rightarrow> int \<Rightarrow> FImGuiContextProxy \<Rightarrow> FImGuiContextManager" where
  "StoreContextProxy cm i Proxy = cm\<lparr>Contexts := AList.update i Proxy (Contexts cm)\<rparr>"

text \<open>
  Modelled from the spec: \<open>ReleaseWorldContext\<close> "releases the bound slot when a world ends";
  the context and all its callbacks are discarded.
\<close>

definition ReleaseContext :: "FImGuiContextManager \<Rightarrow> int \<Rightarrow> FImGuiContextManager" where
  "ReleaseContext cm i = cm\<lparr>Contexts := AList.delete i (Contexts cm)\<rparr>"

type_synonym UWorld = nat

text \<open>
  Modelled from the spec: Utilities/WorldContextIndex.h is missing. The build flag and the
  two "fixed well-known indices" are parameters, and so is the map that the registry keeps
  from a world reference to its stable context index.
\<close>

record Build =
  WITH_EDITOR :: bool
  EDITOR_CONTEXT_INDEX :: int
  STANDALONE_GAME_CONTEXT_INDEX :: int
  GetWorldContextIndex :: "UWorld \<Rightarrow> int"

text \<open>
  Modelled from the spec: the editor context, under its fixed index, "lazily allocated on
  first use".
\<close>

definition GetEditorContextProxy ::
  "Build \<Rightarrow> FImGuiContextManager \<Rightarrow> FImGuiContextProxy \<times> FImGuiContextManager" where
  "GetEditorContextProxy B cm = GetOrCreateContextProxy cm (EDITOR_CONTEXT_INDEX B)"

text \<open>
  Modelled from the spec: the overload without arguments, of the build without editor. It is
  the standalone game context, under its fixed index, "lazily allocated on first use".
\<close>

definition GetWorldContextProxy ::
  "Build \<Rightarrow> FImGuiContextManager \<Rightarrow> FImGuiContextProxy \<times> FImGuiContextManager" where
  "GetWorldContextProxy B cm = GetOrCreateContextProxy cm (STANDALONE_GAME_CONTEXT_INDEX B)"

text \<open>
  Modelled from the spec: the overload that takes a world and writes the context index to its
  second argument. It "looks up an existing slot bound to world_ref; if none exists,
  allocates one".
\<close>

definition GetWorldContextProxyOf ::
  "Build \<Rightarrow> FImGuiContextManager \<Rightarrow> UWorld \<Rightarrow> (FImGuiContextProxy \<times> int) \<times> FImGuiContextManager" where
  "GetWorldContextProxyOf B cm W =
     (let (Proxy, cm1) = GetOrCreateContextProxy cm (GetWorldContextIndex B W)
      in ((Proxy, GetWorldContextIndex B W), cm1))"

subsection \<open>The module's state\<close>

record FImGuiModuleManager =
  ContextManager :: FImGuiContextManager
  TextureManager :: FTextureManager

text \<open>Modelled from the spec: a new module manager owns empty registries.\<close>

definition NewModuleManager :: FImGuiModuleManager where
  "NewModuleManager =
     \<lparr>ContextManager = \<lparr>Contexts = [], OnDrawMultiContext = EmptyDelegate\<rparr>,
      TextureManager = \<lparr>TextureResources = []\<rparr>\<rparr>"

record FWorldContext =
  World :: UWorld

text \<open>
  What the engine answers to the two world lookups of \<^verbatim>\<open>AddWorldImGuiDelegate\<close>: the world
  context of the game viewport and the world context of net mode dedicated server.
\<close>

record UEngine =
  GameViewportWorldContext :: "FWorldContext option"
  DedicatedServerWorldContext :: "FWorldContext option"

text \<open>
  The static pointers of the file, the two console variables of namespace \<^verbatim>\<open>CVars\<close>
  (32-bit integers that are only stored, read and compared with 0), the engine pointer and
  the counter of delegate keys.
\<close>

record ModuleState =
  ImGuiModuleManager :: "FImGuiModuleManager option"
  ImGuiEditor :: "unit option"
  InputEnabled :: int
  ShowDemo :: int
  GEngine :: "UEngine option"
  NextDelegateID :: nat

subsection \<open>Adding and removing delegates\<close>

definition AddEditorImGuiDelegate ::
  "Build \<Rightarrow> ModuleState \<Rightarrow> FImGuiDelegate \<Rightarrow> error + (FImGuiDelegateHandle \<times> ModuleState)" where
  "AddEditorImGuiDelegate B s Delegate =
     (case ImGuiModuleManager s of
        None \<Rightarrow> Inl NullModuleManager
      | Some m \<Rightarrow>
          (let (Proxy, cm1) = GetEditorContextProxy B (ContextManager m);
               (k, D, next_id) = Delegate_Add (OnDraw Proxy) Delegate (NextDelegateID s);
               cm2 = StoreContextProxy cm1 (EDITOR_CONTEXT_INDEX B) (Proxy\<lparr>OnDraw := D\<rparr>)
           in Inr (\<lparr>Handle = k, Category = Default, Index = EDITOR_CONTEXT_INDEX B\<rparr>,
                   s\<lparr>ImGuiModuleManager := Some (m\<lparr>ContextManager := cm2\<rparr>),
                       NextDelegateID := next_id\<rparr>)))"

definition AddWorldImGuiDelegate ::
  "Build \<Rightarrow> ModuleState \<Rightarrow> FImGuiDelegate \<Rightarrow> error + (FImGuiDelegateHandle \<times> ModuleState)" where
  "AddWorldImGuiDelegate B s Delegate =
     (case ImGuiModuleManager s of
        None \<Rightarrow> Inl NullModuleManager
      | Some m \<Rightarrow>
          if WITH_EDITOR B then
            (case GEngine s of
               None \<Rightarrow> Inl NullGEngine
             | Some E \<Rightarrow>
                 (case (case GameViewportWorldContext E of
                          Some wc \<Rightarrow> Some wc
                        | None \<Rightarrow> DedicatedServerWorldContext E) of
                    None \<Rightarrow> Inl NoCurrentWorld
                  | Some WorldContext \<Rightarrow>
                      (let ((Proxy, Index), cm1) =
                             GetWorldContextProxyOf B (ContextManager m) (World WorldContext);
                           (k, D, next_id) = Delegate_Add (OnDraw Proxy) Delegate (NextDelegateID s);
                           cm2 = StoreContextProxy cm1 Index (Proxy\<lparr>OnDraw := D\<rparr>)
                       in Inr (\<lparr>Handle = k, Category = Default, Index = Index\<rparr>,
                               s\<lparr>ImGuiModuleManager := Some (m\<lparr>ContextManager := cm2\<rparr>),
                       NextDelegateID := next_id\<rparr>))))
          else
            (let Index = STANDALONE_GAME_CONTEXT_INDEX B;
                 (Proxy, cm1) = GetWorldContextProxy B (ContextManager m);
                 (k, D, next_id) = Delegate_Add (OnDraw Proxy) Delegate (NextDelegateID s);
                 cm2 = StoreContextProxy cm1 Index (Proxy\<lparr>OnDraw := D\<rparr>)
             in Inr (\<lparr>Handle = k, Category = Default, Index = Index\<rparr>,
                     s\<lparr>ImGuiModuleManager := Some (m\<lparr>ContextManager := cm2\<rparr>),
                       NextDelegateID := next_id\<rparr>)))"

definition AddMultiContextImGuiDelegate ::
  "ModuleState \<Rightarrow> FImGuiDelegate \<Rightarrow> error + (FImGuiDelegateHandle \<times> ModuleState)" where
  "AddMultiContextImGuiDelegate s Delegate =
     (case ImGuiModuleManager s of
        None \<Rightarrow> Inl NullModuleManager
      | Some m \<Rightarrow>
          (let cm = ContextManager m;
               (k, D, next_id) = Delegate_Add (OnDrawMultiContext cm) Delegate (NextDelegateID s)
           in Inr (\<lparr>Handle = k, Category = MultiContext, Index = 0\<rparr>,
                   s\<lparr>ImGuiModuleManager :=
                        Some (m\<lparr>ContextManager := cm\<lparr>OnDrawMultiContext := D\<rparr>\<rparr>),
                      NextDelegateID := next_id\<rparr>)))"

definition RemoveImGuiDelegate :: "ModuleState \<Rightarrow> FImGuiDelegateHandle \<Rightarrow> ModuleState" where
  "RemoveImGuiDelegate s h =
     (case ImGuiModuleManager s of
        None \<Rightarrow> s
      | Some m \<Rightarrow>
          (let cm = ContextManager m in
           if Category h = MultiContext then
             s\<lparr>ImGuiModuleManager :=
                  Some (m\<lparr>ContextManager :=
                            cm\<lparr>OnDrawMultiContext :=
                                  Delegate_Remove (OnDrawMultiContext cm) (Handle h)\<rparr>\<rparr>)\<rparr>
           else
             (case GetContextProxy cm (Index h) of
                None \<Rightarrow> s
              | Some Proxy \<Rightarrow>
                  s\<lparr>ImGuiModuleManager :=
                       Some (m\<lparr>ContextManager :=
                                 StoreContextProxy cm (Index h)
                                   (Proxy\<lparr>OnDraw := Delegate_Remove (OnDraw Proxy) (Handle h)\<rparr>)\<rparr>)\<rparr>)))"

subsection \<open>Textures\<close>

definition HasValidEntry :: "ModuleState \<Rightarrow> FImGuiTextureHandle \<Rightarrow> bool" where
  "HasValidEntry s h =
     (let Index = ToTextureIndex (TextureId h) in
      Index \<noteq> INDEX_NONE \<and>
      (case ImGuiModuleManager s of
         None \<Rightarrow> False
       | Some m \<Rightarrow> GetTextureName (TextureManager m) Index = Name h))"

text \<open>
  Modelled from the spec: ImGuiTextureHandle.h is missing. Unregistration "validates via
  4.1's identity-checked resolve": a handle is valid when the module manager exists and
  resolving the handle's slot index under the handle's name finds a payload.
\<close>

definition IsValid :: "ModuleState \<Rightarrow> FImGuiTextureHandle \<Rightarrow> bool" where
  "IsValid s h =
     (case ImGuiModuleManager s of
        None \<Rightarrow> False
      | Some m \<Rightarrow>
          Resolve (TextureManager m) (ToTextureIndex (GetTextureId h)) (Name h) \<noteq> None)"

definition FindTextureHandle :: "ModuleState \<Rightarrow> FName \<Rightarrow> error + FImGuiTextureHandle" where
  "FindTextureHandle s n =
     (case ImGuiModuleManager s of
        None \<Rightarrow> Inl NullPointerDereference
      | Some m \<Rightarrow>
          (let Index = FindTextureIndex (TextureManager m) n in
           Inr (if Index \<noteq> INDEX_NONE then \<lparr>Name = n, TextureId = ToImTextureID Index\<rparr>
                else DefaultTextureHandle)))"

definition ReleaseTexture :: "ModuleState \<Rightarrow> FImGuiTextureHandle \<Rightarrow> error + ModuleState" where
  "ReleaseTexture s h =
     (if IsValid s h then
        (case ImGuiModuleManager s of
           None \<Rightarrow> Inl NullPointerDereference
         | Some m \<Rightarrow>
             (case ReleaseTextureResources (TextureManager m) (ToTextureIndex (GetTextureId h)) of
                Inl e \<Rightarrow> Inl e
              | Inr tm \<Rightarrow> Inr (s\<lparr>ImGuiModuleManager := Some (m\<lparr>TextureManager := tm\<rparr>)\<rparr>)))
      else Inr s)"

subsection \<open>Startup and shutdown\<close>

definition StartupModule :: "Build \<Rightarrow> ModuleState \<Rightarrow> error + ModuleState" where
  "StartupModule B s =
     (if ImGuiModuleManager s \<noteq> None then Inl ManagerAlreadyExists
      else if WITH_EDITOR B then
        (if ImGuiEditor s \<noteq> None then Inl EditorAlreadyExists
         else Inr (s\<lparr>ImGuiModuleManager := Some NewModuleManager, ImGuiEditor := Some ()\<rparr>))
      else Inr (s\<lparr>ImGuiModuleManager := Some NewModuleManager\<rparr>))"

text \<open>
  In the build with editor the function goes on to subscribe a lambda to the engine's
  module-changed event; that touches none of the state kept here.
\<close>

definition ShutdownModule :: "Build \<Rightarrow> ModuleState \<Rightarrow> error + ModuleState" where
  "ShutdownModule B s =
     (if WITH_EDITOR B \<and> ImGuiEditor s = None then Inl NullEditor
      else
        (let s1 = (if WITH_EDITOR B then s\<lparr>ImGuiEditor := None\<rparr> else s) in
         if ImGuiModuleManager s1 = None then Inl NullModuleManager
         else Inr (s1\<lparr>ImGuiModuleManager := None\<rparr>)))"

subsection \<open>Input mode and demo flags\<close>

definition IsInputMode :: "ModuleState \<Rightarrow> bool" where
  "IsInputMode s = (InputEnabled s > 0)"

definition SetInputMode :: "ModuleState \<Rightarrow> bool \<Rightarrow> ModuleState" where
  "SetInputMode s bEnabled = s\<lparr>InputEnabled := (if bEnabled then 1 else 0)\<rparr>"

definition ToggleInputMode :: "ModuleState \<Rightarrow> ModuleState" where
  "ToggleInputMode s = SetInputMode s (\<not> IsInputMode s)"

text \<open>The console command \<^verbatim>\<open>ImGui.SwitchInputMode\<close>.\<close>

definition SwitchImGuiInputMode :: "ModuleState \<Rightarrow> ModuleState" where
  "SwitchImGuiInputMode s = ToggleInputMode s"

definition IsShowingDemo :: "ModuleState \<Rightarrow> bool" where
  "IsShowingDemo s = (ShowDemo s > 0)"

definition SetShowDemo :: "ModuleState \<Rightarrow> bool \<Rightarrow> ModuleState" where
  "SetShowDemo s bShow = s\<lparr>ShowDemo := (if bShow then 1 else 0)\<rparr>"

definition ToggleShowDemo :: "ModuleState \<Rightarrow> ModuleState" where
  "ToggleShowDemo s = SetShowDemo s (\<not> IsShowingDemo s)"

subsection \<open>What the rest of the plugin does to the registries\<close>

text \<open>
  Modelled from the spec: the teardown of a context, which is "released when that scope
  ends (world destroyed, editor/game shutdown)", as a step of the module's state. With no
  module manager there is nothing to release.
\<close>

definition ReleaseWorldContext :: "ModuleState \<Rightarrow> int \<Rightarrow> ModuleState" where
  "ReleaseWorldContext s i =
     (case ImGuiModuleManager s of
        None \<Rightarrow> s
      | Some m \<Rightarrow>
          s\<lparr>ImGuiModuleManager := Some (m\<lparr>ContextManager := ReleaseContext (ContextManager m) i\<rparr>)\<rparr>)"

text \<open>
  Modelled from the spec: the registration of a texture in a newly allocated slot, which
  returns the handle of name and slot index. \<^verbatim>\<open>RegisterTexture\<close> reaches the slot
  registry through \<^verbatim>\<open>CreateTextureResources\<close>, whose treatment of a name that is already
  registered the spec leaves open; this is the case in which a slot is allocated.
\<close>

definition AllocateTexture ::
  "ModuleState \<Rightarrow> FName \<Rightarrow> UTexture2D \<Rightarrow> error + (FImGuiTextureHandle \<times> ModuleState)" where
  "AllocateTexture s n Texture =
     (case ImGuiModuleManager s of
        None \<Rightarrow> Inl NullPointerDereference
      | Some m \<Rightarrow>
          (let (Index, tm) = Allocate (TextureManager m) n Texture
           in Inr (\<lparr>Name = n, TextureId = ToImTextureID Index\<rparr>,
                   s\<lparr>ImGuiModuleManager := Some (m\<lparr>TextureManager := tm\<rparr>)\<rparr>)))"

subsection \<open>Observations of the delegate sequences\<close>

definition global_entries :: "ModuleState \<Rightarrow> (FDelegateHandle \<times> FImGuiDelegate) list" where
  "global_entries s =
     (case ImGuiModuleManager s of
        None \<Rightarrow> []
      | Some m \<Rightarrow> Entries (OnDrawMultiContext (ContextManager m)))"

definition context_entries ::
  "ModuleState \<Rightarrow> int \<Rightarrow> (FDelegateHandle \<times> FImGuiDelegate) list option" where
  "context_entries s i =
     (case ImGuiModuleManager s of
        None \<Rightarrow> None
      | Some m \<Rightarrow>
          (case GetContextProxy (ContextManager m) i of
             None \<Rightarrow> None
           | Some Proxy \<Rightarrow> Some (Entries (OnDraw Proxy))))"

text \<open>
  The context manager after a callback has been added to the context under an index, as the
  three adding functions do it: get or create the proxy, add to its delegate, store it.
\<close>

definition add_ctx ::
  "FImGuiContextManager \<Rightarrow> int \<Rightarrow> FImGuiDelegate \<Rightarrow> nat \<Rightarrow> FImGuiContextManager" where
  "add_ctx cm i d n =
     StoreContextProxy (snd (GetOrCreateContextProxy cm i)) i
       ((fst (GetOrCreateContextProxy cm i))
          \<lparr>OnDraw := fst (snd (Delegate_Add (OnDraw (fst (GetOrCreateContextProxy cm i))) d n))\<rparr>)"

text \<open>
  A sequence is well formed under a counter value when its keys are pairwise distinct and
  all below the counter.
\<close>

definition wf_entries :: "nat \<Rightarrow> (FDelegateHandle \<times> FImGuiDelegate) list \<Rightarrow> bool" where
  "wf_entries n es = (distinct (map fst es) \<and> list_all (\<lambda>e. fst e < n) es)"

text \<open>
  One step of the module's life: any call of the facade that returns, a context teardown, a
  texture allocation, and a change of the engine pointer or of a console variable from outside.
\<close>

inductive step :: "Build \<Rightarrow> ModuleState \<Rightarrow> ModuleState \<Rightarrow> bool" for B :: Build where
  step_Startup: "StartupModule B s = Inr s' \<Longrightarrow> step B s s'"
| step_Shutdown: "ShutdownModule B s = Inr s' \<Longrightarrow> step B s s'"
| step_AddEditor: "AddEditorImGuiDelegate B s d = Inr (h, s') \<Longrightarrow> step B s s'"
| step_AddWorld: "AddWorldImGuiDelegate B s d = Inr (h, s') \<Longrightarrow> step B s s'"
| step_AddMultiContext: "AddMultiContextImGuiDelegate s d = Inr (h, s') \<Longrightarrow> step B s s'"
| step_Remove: "step B s (RemoveImGuiDelegate s h)"
| step_ReleaseWorldContext: "step B s (ReleaseWorldContext s i)"
| step_AllocateTexture: "AllocateTexture s n Texture = Inr (t, s') \<Longrightarrow> step B s s'"
| step_ReleaseTexture: "ReleaseTexture s t = Inr s' \<Longrightarrow> step B s s'"
| step_SetInputMode: "step B s (SetInputMode s b)"
| step_SetShowDemo: "step B s (SetShowDemo s b)"
| step_SwitchInputMode: "step B s (SwitchImGuiInputMode s)"
| step_Console: "step B s (s\<lparr>InputEnabled := v, ShowDemo := w\<rparr>)"
| step_Engine: "step B s (s\<lparr>GEngine := E\<rparr>)"

subsection \<open>The delegate sequences as an abstract registry\<close>

text \<open>
  What the delegate claims are about is the counter of keys, the global sequence and the
  sequence of each live context. Every step of the module acts on this observation as one of
  seven events; the invariants below are properties of observations that all events keep.
\<close>

type_synonym entries = "(FDelegateHandle \<times> FImGuiDelegate) list"
type_synonym obs = "nat \<times> entries \<times> (int \<Rightarrow> entries option)"

text \<open>The observation of a state.\<close>

definition observe :: "ModuleState \<Rightarrow> obs" where
  "observe s = (NextDelegateID s, global_entries s, context_entries s)"

datatype event =
    Keep
  | Reset
  | AddGlobal FImGuiDelegate
  | AddContext int FImGuiDelegate
  | RemoveGlobal FDelegateHandle
  | RemoveContext int FDelegateHandle
  | ReleaseCtx int

fun effect :: "event \<Rightarrow> obs \<Rightarrow> obs" where
  "effect Keep (n, g, c) = (n, g, c)"
| "effect Reset (n, g, c) = (n, [], \<lambda>i. None)"
| "effect (AddGlobal d) (n, g, c) = (Suc n, g @ [(n, d)], c)"
| "effect (AddContext i d) (n, g, c) =
     (Suc n, g, c(i \<mapsto> (case c i of None \<Rightarrow> [] | Some es \<Rightarrow> es) @ [(n, d)]))"
| "effect (RemoveGlobal k) (n, g, c) = (n, filter (\<lambda>e. fst e \<noteq> k) g, c)"
| "effect (RemoveContext i k) (n, g, c) =
     (n, g, c(i := map_option (filter (\<lambda>e. fst e \<noteq> k)) (c i)))"
| "effect (ReleaseCtx i) (n, g, c) = (n, g, c(i := None))"

text \<open>
  All sequences are well formed under the counter.
\<close>

definition wf_obs :: "obs \<Rightarrow> bool" where
  "wf_obs ob =
     (case ob of (n, g, c) \<Rightarrow>
        wf_entries n g \<and> (\<forall>i es. c i = Some es \<longrightarrow> wf_entries n es))"

text \<open>
  The key of handle \<open>h\<close> has been issued, and an entry under that key occurs only in the
  sequence that \<open>h\<close> designates and only with the callback \<open>d\<close>.
\<close>

definition own_obs :: "FImGuiDelegateHandle \<Rightarrow> FImGuiDelegate \<Rightarrow> obs \<Rightarrow> bool" where
  "own_obs h d ob =
     (case ob of (n, g, c) \<Rightarrow>
        Handle h < n \<and>
        (\<forall>e \<in> set g. fst e = Handle h \<longrightarrow> Category h = MultiContext \<and> snd e = d) \<and>
        (\<forall>i es. c i = Some es \<longrightarrow>
           (\<forall>e \<in> set es. fst e = Handle h \<longrightarrow>
              Category h = Default \<and> i = Index h \<and> snd e = d)))"

text \<open>
  The key of handle \<open>h\<close> has been issued, and the context under the index of \<open>h\<close>, if one
  lives there, holds no entry under that key.
\<close>

definition stale_obs :: "FImGuiDelegateHandle \<Rightarrow> obs \<Rightarrow> bool" where
  "stale_obs h ob =
     (case ob of (n, g, c) \<Rightarrow>
        Handle h < n \<and> (\<forall>es. c (Index h) = Some es \<longrightarrow> Handle h \<notin> fst ` set es))"

text \<open>
  One of the three adding functions returned handle \<open>h\<close> for callback \<open>d\<close>.
\<close>

definition issues ::
  "Build \<Rightarrow> ModuleState \<Rightarrow> FImGuiDelegate \<Rightarrow> FImGuiDelegateHandle \<Rightarrow> ModuleState \<Rightarrow> bool" where
  "issues B s d h s' =
     (AddEditorImGuiDelegate B s d = Inr (h, s') \<or>
      AddWorldImGuiDelegate B s d = Inr (h, s') \<or>
      AddMultiContextImGuiDelegate s d = Inr (h, s'))"

text \<open>
  The sequence a handle designates: the global one for the multi-context category, else the
  sequence of the context under the handle's index, if that context is live.
\<close>

definition designated :: "ModuleState \<Rightarrow> FImGuiDelegateHandle \<Rightarrow> entries option" where
  "designated s h =
     (if Category h = MultiContext then Some (global_entries s) else context_entries s (Index h))"

text \<open>Sample parameters and states for the concrete instances below.\<close>

definition SampleBuild :: Build where
  "SampleBuild =
     \<lparr>WITH_EDITOR = False, EDITOR_CONTEXT_INDEX = - 1, STANDALONE_GAME_CONTEXT_INDEX = - 2,
      GetWorldContextIndex = int\<rparr>"

definition SampleEditorBuild :: Build where
  "SampleEditorBuild =
     \<lparr>WITH_EDITOR = True, EDITOR_CONTEXT_INDEX = - 1, STANDALONE_GAME_CONTEXT_INDEX = - 2,
      GetWorldContextIndex = int\<rparr>"

definition Unloaded :: ModuleState where
  "Unloaded =
     \<lparr>ImGuiModuleManager = None, ImGuiEditor = None, InputEnabled = 0, ShowDemo = 0,
      GEngine = None, NextDelegateID = 0\<rparr>"

definition Started :: ModuleState where
  "Started = Unloaded\<lparr>ImGuiModuleManager := Some NewModuleManager\<rparr>"


definition AfterRelease :: ModuleState where
  "AfterRelease = Unloaded\<lparr>ImGuiModuleManager :=
       Some (NewModuleManager\<lparr>TextureManager := \<lparr>TextureResources = [None]\<rparr>\<rparr>)\<rparr>"


definition OneDelegate :: ModuleState where
  "OneDelegate =
     Unloaded\<lparr>ImGuiModuleManager :=
       Some (NewModuleManager\<lparr>ContextManager :=
         \<lparr>Contexts = [(- 2, \<lparr>OnDraw = \<lparr>Entries = [(0, 7)]\<rparr>\<rparr>)],
          OnDrawMultiContext = EmptyDelegate\<rparr>\<rparr>),
       NextDelegateID := 1\<rparr>"

definition TwoDelegates :: ModuleState where
  "TwoDelegates =
     Unloaded\<lparr>ImGuiModuleManager :=
       Some (NewModuleManager\<lparr>ContextManager :=
         \<lparr>Contexts = [(- 2, \<lparr>OnDraw = \<lparr>Entries = [(0, 7), (1, 8)]\<rparr>\<rparr>)],
          OnDrawMultiContext = EmptyDelegate\<rparr>\<rparr>),
       NextDelegateID := 2\<rparr>"

definition Recreated :: ModuleState where
  "Recreated =
     Unloaded\<lparr>ImGuiModuleManager :=
       Some (NewModuleManager\<lparr>ContextManager :=
         \<lparr>Contexts = [(- 2, \<lparr>OnDraw = \<lparr>Entries = [(1, 8)]\<rparr>\<rparr>)],
          OnDrawMultiContext = EmptyDelegate\<rparr>\<rparr>),
       NextDelegateID := 2\<rparr>"

definition StartedInEditor :: ModuleState where
  "StartedInEditor =
     Started\<lparr>ImGuiEditor := Some (),
             GEngine := Some \<lparr>GameViewportWorldContext = None,
                              DedicatedServerWorldContext = Some \<lparr>World = 3\<rparr>\<rparr>\<rparr>"

definition OneDelegateInEditor :: ModuleState where
  "OneDelegateInEditor =
     StartedInEditor\<lparr>ImGuiModuleManager :=
       Some (NewModuleManager\<lparr>ContextManager :=
         \<lparr>Contexts = [(3, \<lparr>OnDraw = \<lparr>Entries = [(0, 7)]\<rparr>\<rparr>)],
          OnDrawMultiContext = EmptyDelegate\<rparr>\<rparr>),
       NextDelegateID := 1\<rparr>"

definition SampleTextures :: ModuleState where
  "SampleTextures =
     Unloaded\<lparr>ImGuiModuleManager :=
       Some (NewModuleManager\<lparr>TextureManager :=
         \<lparr>TextureResources = [Some (''A'', 1), None, Some (''B'', 2)]\<rparr>\<rparr>)\<rparr>"

section \<open>Texture handles\<close>

lemma ToTextureIndex_ToImTextureID: "ToTextureIndex (ToImTextureID i) = i"
  by (simp add: ToImTextureID_def)

lemma GetTextureName_cases:
  "GetTextureName tm i = n \<longleftrightarrow>
     (\<exists>payload. IsInRange tm i \<and> TextureResources tm ! nat i = Some (n, payload)) \<or>
     (n = NAME_None \<and> \<not> (IsInRange tm i \<and> TextureResources tm ! nat i \<noteq> None))"
proof (cases "IsInRange tm i")
  case False
  then show ?thesis by (auto simp: GetTextureName_def)
next
  case True
  then show ?thesis
    by (cases "TextureResources tm ! nat i") (auto simp: GetTextureName_def)
qed

text \<open>
  Claim C1, as amended. \<open>HasValidEntry\<close> holds of a texture handle exactly when the module
  manager exists, the index encoded in the handle is not the invalid index, and the name
  read from the slot is the handle's name: either the slot is in range and holds a live
  payload stored under the handle's name, or the handle carries the name of nothing and the
  slot is not live (free, or out of range). So for a handle that carries any other name it
  holds exactly for a live slot under that name, and it is false for a free slot, for a slot
  that lives under another name, for an index out of range and without a module manager.
\<close>

theorem HasValidEntry_iff_stored_name:
  "HasValidEntry s h \<longleftrightarrow>
     (\<exists>m. ImGuiModuleManager s = Some m \<and>
        ToTextureIndex (TextureId h) \<noteq> INDEX_NONE \<and>
        ((\<exists>payload.
            0 \<le> ToTextureIndex (TextureId h) \<and>
            nat (ToTextureIndex (TextureId h)) < length (TextureResources (TextureManager m)) \<and>
            TextureResources (TextureManager m) ! nat (ToTextureIndex (TextureId h))
              = Some (Name h, payload)) \<or>
         (Name h = NAME_None \<and>
          \<not> (0 \<le> ToTextureIndex (TextureId h) \<and>
             nat (ToTextureIndex (TextureId h)) < length (TextureResources (TextureManager m)) \<and>
             TextureResources (TextureManager m) ! nat (ToTextureIndex (TextureId h)) \<noteq> None))))"
proof (cases "ImGuiModuleManager s")
  case None
  then show ?thesis by (simp add: HasValidEntry_def)
next
  case (Some m)
  then have "HasValidEntry s h \<longleftrightarrow>
      ToTextureIndex (TextureId h) \<noteq> INDEX_NONE \<and>
      GetTextureName (TextureManager m) (ToTextureIndex (TextureId h)) = Name h"
    by (simp add: HasValidEntry_def Let_def)
  with Some show ?thesis
    by (simp add: GetTextureName_cases IsInRange_def)
qed

theorem HasValidEntry_iff_stored_name_witness:
  "HasValidEntry SampleTextures \<lparr>Name = ''A'', TextureId = ToImTextureID 0\<rparr> \<and>
   \<not> HasValidEntry SampleTextures \<lparr>Name = ''B'', TextureId = ToImTextureID 0\<rparr> \<and>
   \<not> HasValidEntry SampleTextures \<lparr>Name = ''A'', TextureId = ToImTextureID 1\<rparr> \<and>
   \<not> HasValidEntry SampleTextures \<lparr>Name = ''A'', TextureId = ToImTextureID 3\<rparr> \<and>
   \<not> HasValidEntry SampleTextures \<lparr>Name = ''A'', TextureId = ToImTextureID (- 1)\<rparr> \<and>
   \<not> HasValidEntry Unloaded \<lparr>Name = ''A'', TextureId = ToImTextureID 0\<rparr> \<and>
   HasValidEntry SampleTextures \<lparr>Name = NAME_None, TextureId = ToImTextureID 1\<rparr> \<and>
   \<not> HasValidEntry SampleTextures \<lparr>Name = NAME_None, TextureId = ToImTextureID 0\<rparr> \<and>
   \<not> HasValidEntry SampleTextures \<lparr>Name = NAME_None, TextureId = ToImTextureID (- 1)\<rparr>"
  by (simp add: HasValidEntry_iff_stored_name SampleTextures_def Unloaded_def
                NewModuleManager_def ToTextureIndex_ToImTextureID NAME_None_def INDEX_NONE_def)

text \<open>
  Claim C1, as stated, fails: in a registry whose slot 1 is free and which has three slots,
  the handle that carries the name of nothing has a valid entry at the free index 1 and at
  the index 5, which is out of range.
\<close>

theorem HasValidEntry_no_name_on_free_slot:
  "ImGuiModuleManager SampleTextures =
     Some (NewModuleManager\<lparr>TextureManager :=
       \<lparr>TextureResources = [Some (''A'', 1), None, Some (''B'', 2)]\<rparr>\<rparr>) \<and>
   HasValidEntry SampleTextures \<lparr>Name = NAME_None, TextureId = ToImTextureID 1\<rparr> \<and>
   HasValidEntry SampleTextures \<lparr>Name = NAME_None, TextureId = ToImTextureID 5\<rparr>"
  by (simp add: HasValidEntry_def GetTextureName_def IsInRange_def SampleTextures_def
                NewModuleManager_def ToTextureIndex_ToImTextureID INDEX_NONE_def)

lemma IsValid_iff:
  "IsValid s h \<longleftrightarrow>
     (\<exists>m payload.
        ImGuiModuleManager s = Some m \<and>
        0 \<le> ToTextureIndex (TextureId h) \<and>
        nat (ToTextureIndex (TextureId h)) < length (TextureResources (TextureManager m)) \<and>
        TextureResources (TextureManager m) ! nat (ToTextureIndex (TextureId h))
          = Some (Name h, payload))"
proof (cases "ImGuiModuleManager s")
  case None
  then show ?thesis by (simp add: IsValid_def)
next
  case (Some m)
  then show ?thesis
    by (cases "TextureResources (TextureManager m) ! nat (ToTextureIndex (TextureId h))")
       (auto simp: IsValid_def Resolve_def IsInRange_def GetTextureId_def split: if_splits)
qed

lemma IsValid_HasValidEntry: "IsValid s h \<Longrightarrow> HasValidEntry s h"
  by (auto simp: IsValid_iff HasValidEntry_def GetTextureName_def IsInRange_def INDEX_NONE_def)

lemma IsValid_index: "ToTextureIndex (TextureId h) = INDEX_NONE \<Longrightarrow> \<not> IsValid s h"
  by (simp add: IsValid_iff INDEX_NONE_def)

lemma ReleaseTexture_valid:
  assumes "IsValid s h"
  shows "\<exists>m. ImGuiModuleManager s = Some m \<and>
           0 \<le> ToTextureIndex (TextureId h) \<and>
           nat (ToTextureIndex (TextureId h)) < length (TextureResources (TextureManager m)) \<and>
           ReleaseTexture s h =
             Inr (s\<lparr>ImGuiModuleManager := Some (m\<lparr>TextureManager :=
                    (TextureManager m)\<lparr>TextureResources :=
                       (TextureResources (TextureManager m))[nat (ToTextureIndex (TextureId h)) := None]\<rparr>\<rparr>)\<rparr>)"
proof -
  from assms obtain m payload where m: "ImGuiModuleManager s = Some m"
    "0 \<le> ToTextureIndex (TextureId h)"
    "nat (ToTextureIndex (TextureId h)) < length (TextureResources (TextureManager m))"
    "TextureResources (TextureManager m) ! nat (ToTextureIndex (TextureId h)) = Some (Name h, payload)"
    by (auto simp: IsValid_iff)
  with assms show ?thesis
    by (simp add: ReleaseTexture_def GetTextureId_def ReleaseTextureResources_def IsInRange_def)
qed

lemma ReleaseTexture_invalid: "\<not> IsValid s h \<Longrightarrow> ReleaseTexture s h = Inr s"
  by (simp add: ReleaseTexture_def)

lemma ReleaseTexture_invalidates:
  assumes "ReleaseTexture s h = Inr s'"
  shows "\<not> IsValid s' h"
proof (cases "IsValid s h")
  case False
  with assms show ?thesis by (simp add: ReleaseTexture_invalid)
next
  case True
  from ReleaseTexture_valid [OF True] assms show ?thesis
    by (auto simp: IsValid_iff)
qed

lemma ReleaseTexture_returns: "\<exists>s'. ReleaseTexture s h = Inr s'"
  using ReleaseTexture_valid [of s h] ReleaseTexture_invalid [of s h] by blast

text \<open>
  Claim C10. A handle whose texture id encodes the invalid index has no valid entry, whatever
  its name and whatever the registry holds, and releasing it leaves the state as it is. The
  default-constructed handle is such a handle, and it is what \<open>FindTextureHandle\<close> returns
  when the search by name finds nothing.
\<close>

theorem invalid_index_handle:
  "(ToTextureIndex (TextureId h) = INDEX_NONE \<longrightarrow>
      \<not> HasValidEntry s h \<and> ReleaseTexture s h = Inr s) \<and>
   ToTextureIndex (TextureId DefaultTextureHandle) = INDEX_NONE \<and>
   (FindTextureIndex tm n = INDEX_NONE \<longrightarrow>
      FindTextureHandle (s\<lparr>ImGuiModuleManager := Some (m\<lparr>TextureManager := tm\<rparr>)\<rparr>) n
        = Inr DefaultTextureHandle)"
  by (simp add: HasValidEntry_def ReleaseTexture_invalid IsValid_index DefaultTextureHandle_def
                ToTextureIndex_ToImTextureID FindTextureHandle_def)

theorem invalid_index_handle_witness:
  "ToTextureIndex (TextureId \<lparr>Name = ''A'', TextureId = ToImTextureID (- 1)\<rparr>) = INDEX_NONE \<and>
   \<not> HasValidEntry SampleTextures \<lparr>Name = ''A'', TextureId = ToImTextureID (- 1)\<rparr> \<and>
   ReleaseTexture SampleTextures \<lparr>Name = ''A'', TextureId = ToImTextureID (- 1)\<rparr>
     = Inr SampleTextures"
proof -
  have idx: "ToTextureIndex (TextureId \<lparr>Name = ''A'', TextureId = ToImTextureID (- 1)\<rparr>) = INDEX_NONE"
    by (simp add: ToTextureIndex_ToImTextureID INDEX_NONE_def)
  show ?thesis
    using idx invalid_index_handle [of "\<lparr>Name = ''A'', TextureId = ToImTextureID (- 1)\<rparr>" SampleTextures]
    by simp
qed

lemma find_slot_miss:
  "find_slot n es k = INDEX_NONE \<longleftrightarrow> (\<forall>payload. Some (n, payload) \<notin> set es)"
  by (induction n es k rule: find_slot.induct) (auto simp: INDEX_NONE_def)

lemma find_slot_hit:
  "find_slot n es k \<noteq> INDEX_NONE \<Longrightarrow>
     \<exists>i payload. find_slot n es k = int (k + i) \<and> i < length es \<and> es ! i = Some (n, payload)"
proof (induction n es k rule: find_slot.induct)
  case (1 n i)
  then show ?case by simp
next
  case (2 n es i)
  then obtain j payload where
    "find_slot n es (Suc i) = int (Suc i + j)" "j < length es" "es ! j = Some (n, payload)"
    by auto
  then have "find_slot n (None # es) i = int (i + Suc j) \<and> Suc j < length (None # es) \<and>
             (None # es) ! Suc j = Some (n, payload)"
    by simp
  then show ?case by blast
next
  case (3 n m p es i)
  show ?case
  proof (cases "m = n")
    case True
    then have "find_slot n (Some (m, p) # es) i = int (i + 0) \<and> 0 < length (Some (m, p) # es) \<and>
               (Some (m, p) # es) ! 0 = Some (n, p)"
      by simp
    then show ?thesis by blast
  next
    case False
    with 3 obtain j payload where
      "find_slot n es (Suc i) = int (Suc i + j)" "j < length es" "es ! j = Some (n, payload)"
      by auto
    with False have "find_slot n (Some (m, p) # es) i = int (i + Suc j) \<and>
               Suc j < length (Some (m, p) # es) \<and> (Some (m, p) # es) ! Suc j = Some (n, payload)"
      by simp
    then show ?thesis by blast
  qed
qed

text \<open>
  Claim C7. With the module manager in place, \<open>FindTextureHandle\<close> returns the invalid
  default handle when no live slot stores the name, and otherwise a handle that carries the
  name together with the id of a live slot that stores it; that handle has a valid entry.
\<close>

theorem FindTextureHandle_by_name:
  assumes "ImGuiModuleManager s = Some m"
  shows "((\<forall>payload. Some (n, payload) \<notin> set (TextureResources (TextureManager m))) \<longrightarrow>
            FindTextureHandle s n = Inr DefaultTextureHandle \<and>
            \<not> HasValidEntry s DefaultTextureHandle) \<and>
         ((\<exists>payload. Some (n, payload) \<in> set (TextureResources (TextureManager m))) \<longrightarrow>
            (\<exists>i payload.
               FindTextureHandle s n = Inr \<lparr>Name = n, TextureId = ToImTextureID (int i)\<rparr> \<and>
               i < length (TextureResources (TextureManager m)) \<and>
               TextureResources (TextureManager m) ! i = Some (n, payload) \<and>
               HasValidEntry s \<lparr>Name = n, TextureId = ToImTextureID (int i)\<rparr>))"
proof (intro conjI impI)
  assume miss: "\<forall>payload. Some (n, payload) \<notin> set (TextureResources (TextureManager m))"
  then have "FindTextureIndex (TextureManager m) n = INDEX_NONE"
    by (simp add: FindTextureIndex_def find_slot_miss)
  with assms show "FindTextureHandle s n = Inr DefaultTextureHandle"
    by (simp add: FindTextureHandle_def)
  show "\<not> HasValidEntry s DefaultTextureHandle"
    by (simp add: HasValidEntry_def DefaultTextureHandle_def ToImTextureID_def)
next
  assume "\<exists>payload. Some (n, payload) \<in> set (TextureResources (TextureManager m))"
  then have found: "FindTextureIndex (TextureManager m) n \<noteq> INDEX_NONE"
    by (simp add: FindTextureIndex_def find_slot_miss)
  then obtain i payload where i:
    "FindTextureIndex (TextureManager m) n = int i"
    "i < length (TextureResources (TextureManager m))"
    "TextureResources (TextureManager m) ! i = Some (n, payload)"
    unfolding FindTextureIndex_def
    using find_slot_hit [of n "TextureResources (TextureManager m)" 0] by auto
  have "FindTextureHandle s n = Inr \<lparr>Name = n, TextureId = ToImTextureID (int i)\<rparr>"
    using assms found i(1) by (simp add: FindTextureHandle_def)
  moreover have "HasValidEntry s \<lparr>Name = n, TextureId = ToImTextureID (int i)\<rparr>"
    using assms i
    by (simp add: HasValidEntry_def ToImTextureID_def GetTextureName_def IsInRange_def
                  INDEX_NONE_def)
  ultimately show "\<exists>i payload.
       FindTextureHandle s n = Inr \<lparr>Name = n, TextureId = ToImTextureID (int i)\<rparr> \<and>
       i < length (TextureResources (TextureManager m)) \<and>
       TextureResources (TextureManager m) ! i = Some (n, payload) \<and>
       HasValidEntry s \<lparr>Name = n, TextureId = ToImTextureID (int i)\<rparr>"
    using i by blast
qed

theorem FindTextureHandle_by_name_witness:
  "ImGuiModuleManager SampleTextures
     = Some (NewModuleManager\<lparr>TextureManager :=
         \<lparr>TextureResources = [Some (''A'', 1), None, Some (''B'', 2)]\<rparr>\<rparr>) \<and>
   FindTextureHandle SampleTextures ''C'' = Inr DefaultTextureHandle \<and>
   FindTextureHandle SampleTextures ''B'' = Inr \<lparr>Name = ''B'', TextureId = ToImTextureID 2\<rparr>"
proof -
  have mgr: "ImGuiModuleManager SampleTextures
     = Some (NewModuleManager\<lparr>TextureManager :=
         \<lparr>TextureResources = [Some (''A'', 1), None, Some (''B'', 2)]\<rparr>\<rparr>)"
    by (simp add: SampleTextures_def)
  have "FindTextureHandle SampleTextures ''C'' = Inr DefaultTextureHandle"
    using FindTextureHandle_by_name [OF mgr, of "''C''"] by simp
  moreover have "FindTextureHandle SampleTextures ''B'' = Inr \<lparr>Name = ''B'', TextureId = ToImTextureID 2\<rparr>"
    by (simp add: FindTextureHandle_def mgr FindTextureIndex_def INDEX_NONE_def)
  ultimately show ?thesis using mgr by simp
qed






lemma Delegate_Remove_idem: "Delegate_Remove (Delegate_Remove D k) k = Delegate_Remove D k"
  by (simp add: Delegate_Remove_def)

lemma RemoveImGuiDelegate_idem:
  "RemoveImGuiDelegate (RemoveImGuiDelegate s h) h = RemoveImGuiDelegate s h"
  by (simp add: RemoveImGuiDelegate_def Let_def GetContextProxy_def StoreContextProxy_def
                Delegate_Remove_idem update_conv'
           split: option.splits)

text \<open>
  Claim C5. Removal and release are idempotent: removing a delegate handle a second time
  changes nothing more, \<open>ReleaseTexture\<close> always returns, releasing the same handle again
  leaves the state as the first release left it, and releasing a handle that has no valid
  entry leaves the state as it is.
\<close>

theorem removal_and_release_idempotent:
  "RemoveImGuiDelegate (RemoveImGuiDelegate s h) h = RemoveImGuiDelegate s h \<and>
   (\<exists>s1. ReleaseTexture s t = Inr s1 \<and> ReleaseTexture s1 t = Inr s1) \<and>
   (\<not> HasValidEntry s t \<longrightarrow> ReleaseTexture s t = Inr s)"
proof -
  obtain s1 where s1: "ReleaseTexture s t = Inr s1"
    using ReleaseTexture_returns by blast
  then have "ReleaseTexture s1 t = Inr s1"
    by (simp add: ReleaseTexture_invalidates ReleaseTexture_invalid)
  moreover have "ReleaseTexture s t = Inr s" if "\<not> HasValidEntry s t"
    using that IsValid_HasValidEntry [of s t] by (auto intro: ReleaseTexture_invalid)
  ultimately show ?thesis
    using s1 by (auto simp: RemoveImGuiDelegate_idem)
qed

theorem removal_and_release_idempotent_witness:
  "RemoveImGuiDelegate
     (RemoveImGuiDelegate SampleTextures \<lparr>Handle = 0, Category = MultiContext, Index = 0\<rparr>)
     \<lparr>Handle = 0, Category = MultiContext, Index = 0\<rparr>
     = RemoveImGuiDelegate SampleTextures \<lparr>Handle = 0, Category = MultiContext, Index = 0\<rparr> \<and>
   ReleaseTexture SampleTextures \<lparr>Name = ''A'', TextureId = ToImTextureID 1\<rparr> = Inr SampleTextures"
proof -
  have "\<not> HasValidEntry SampleTextures \<lparr>Name = ''A'', TextureId = ToImTextureID 1\<rparr>"
    by (simp add: HasValidEntry_def ToTextureIndex_ToImTextureID INDEX_NONE_def GetTextureName_def
                  IsInRange_def SampleTextures_def NewModuleManager_def NAME_None_def)
  then show ?thesis
    using removal_and_release_idempotent
      [of SampleTextures "\<lparr>Handle = 0, Category = MultiContext, Index = 0\<rparr>"
          "\<lparr>Name = ''A'', TextureId = ToImTextureID 1\<rparr>"]
    by simp
qed


lemma AllocateTexture_returns:
  "ImGuiModuleManager s = Some m \<Longrightarrow> \<exists>h s'. AllocateTexture s n payload = Inr (h, s')"
  by (simp add: AllocateTexture_def split: prod.splits)




text \<open>
  The condition on \<open>A\<close> in the state between release and reallocation is needed: a handle
  issued under the name of nothing still has a valid entry after its slot has been released.
\<close>

lemma released_handle_without_name:
  "AllocateTexture Started NAME_None 1 =
     Inr (\<lparr>Name = NAME_None, TextureId = ToImTextureID 0\<rparr>,
          Started\<lparr>ImGuiModuleManager :=
            Some (NewModuleManager\<lparr>TextureManager :=
              \<lparr>TextureResources = [Some (NAME_None, 1)]\<rparr>\<rparr>)\<rparr>) \<and>
   ReleaseTexture
     (Started\<lparr>ImGuiModuleManager :=
        Some (NewModuleManager\<lparr>TextureManager :=
          \<lparr>TextureResources = [Some (NAME_None, 1)]\<rparr>\<rparr>)\<rparr>)
     \<lparr>Name = NAME_None, TextureId = ToImTextureID 0\<rparr> = Inr AfterRelease \<and>
   HasValidEntry AfterRelease \<lparr>Name = NAME_None, TextureId = ToImTextureID 0\<rparr>"
  by (simp add: AllocateTexture_def Allocate_def free_list_def ReleaseTexture_def IsValid_def
                Resolve_def GetTextureId_def ReleaseTextureResources_def IsInRange_def
                HasValidEntry_def GetTextureName_def ToTextureIndex_ToImTextureID INDEX_NONE_def
                Started_def Unloaded_def NewModuleManager_def AfterRelease_def)

section \<open>Input mode and demo flags\<close>

text \<open>
  Claim C8. The two toggles are boolean flags: after \<open>SetInputMode b\<close> the input mode is
  \<open>b\<close>, after \<open>SetShowDemo b\<close> the demo flag is \<open>b\<close>; each toggle inverts its flag, so
  two toggles restore the flag; the console command toggles the input mode; and neither
  setter touches the other flag.
\<close>

theorem input_and_demo_flags:
  "IsInputMode (SetInputMode s b) = b \<and>
   IsShowingDemo (SetShowDemo s b) = b \<and>
   IsInputMode (ToggleInputMode s) = (\<not> IsInputMode s) \<and>
   IsShowingDemo (ToggleShowDemo s) = (\<not> IsShowingDemo s) \<and>
   IsInputMode (ToggleInputMode (ToggleInputMode s)) = IsInputMode s \<and>
   IsShowingDemo (ToggleShowDemo (ToggleShowDemo s)) = IsShowingDemo s \<and>
   IsInputMode (SwitchImGuiInputMode s) = (\<not> IsInputMode s) \<and>
   IsShowingDemo (SetInputMode s b) = IsShowingDemo s \<and>
   IsInputMode (SetShowDemo s b) = IsInputMode s"
  by (simp add: IsInputMode_def SetInputMode_def ToggleInputMode_def SwitchImGuiInputMode_def
                IsShowingDemo_def SetShowDemo_def ToggleShowDemo_def)

theorem input_and_demo_flags_witness:
  "IsInputMode (SetInputMode (Unloaded\<lparr>InputEnabled := 5\<rparr>) False) = False \<and>
   IsInputMode (ToggleInputMode (ToggleInputMode (Unloaded\<lparr>InputEnabled := 5\<rparr>)))
     = IsInputMode (Unloaded\<lparr>InputEnabled := 5\<rparr>) \<and>
   InputEnabled (ToggleInputMode (ToggleInputMode (Unloaded\<lparr>InputEnabled := 5\<rparr>))) = 1"
  using input_and_demo_flags [of "Unloaded\<lparr>InputEnabled := 5\<rparr>" False]
  by (simp add: ToggleInputMode_def SetInputMode_def IsInputMode_def Unloaded_def)

section \<open>Delegates\<close>

text \<open>
  Claim C9. After a shutdown that returned, the module manager pointer is null, and
  \<open>RemoveImGuiDelegate\<close> with any handle returns the state it was given: the guard on the
  pointer keeps it from reading the destroyed manager.
\<close>

theorem RemoveImGuiDelegate_after_shutdown:
  assumes "ShutdownModule B s = Inr s'"
  shows "ImGuiModuleManager s' = None \<and> RemoveImGuiDelegate s' h = s'"
  using assms
  by (auto simp: ShutdownModule_def RemoveImGuiDelegate_def Let_def split: if_splits)

theorem RemoveImGuiDelegate_after_shutdown_witness:
  "ShutdownModule SampleBuild Started = Inr Unloaded \<and>
   ImGuiModuleManager Unloaded = None \<and>
   RemoveImGuiDelegate Unloaded \<lparr>Handle = 0, Category = MultiContext, Index = 0\<rparr> = Unloaded"
proof -
  have down: "ShutdownModule SampleBuild Started = Inr Unloaded"
    by (simp add: ShutdownModule_def SampleBuild_def Started_def Unloaded_def)
  show ?thesis
    using down RemoveImGuiDelegate_after_shutdown [OF down] by simp
qed

subsection \<open>Steps as events\<close>

lemma Delegate_Add_sel:
  "fst (Delegate_Add D d n) = n" "snd (snd (Delegate_Add D d n)) = Suc n"
  "Entries (fst (snd (Delegate_Add D d n))) = Entries D @ [(n, d)]"
  by (simp_all add: Delegate_Add_def)

lemma add_ctx_lookup:
  "GetContextProxy (add_ctx cm i d n) j =
     (if j = i
      then Some \<lparr>OnDraw = \<lparr>Entries =
             (case GetContextProxy cm i of None \<Rightarrow> [] | Some P \<Rightarrow> Entries (OnDraw P)) @ [(n, d)]\<rparr>\<rparr>
      else GetContextProxy cm j)"
  by (simp add: add_ctx_def GetOrCreateContextProxy_def Delegate_Add_def StoreContextProxy_def
                 GetContextProxy_def EmptyDelegate_def update_conv'
           split: option.splits)

lemma add_ctx_global: "OnDrawMultiContext (add_ctx cm i d n) = OnDrawMultiContext cm"
  by (simp add: add_ctx_def GetOrCreateContextProxy_def StoreContextProxy_def split: option.splits)

lemma AddWorld_normal:
  assumes "AddWorldImGuiDelegate B s d = Inr (h, s')"
  shows "\<exists>m i. ImGuiModuleManager s = Some m \<and>
           h = \<lparr>Handle = NextDelegateID s, Category = Default, Index = i\<rparr> \<and>
           s' = s\<lparr>ImGuiModuleManager :=
                    Some (m\<lparr>ContextManager := add_ctx (ContextManager m) i d (NextDelegateID s)\<rparr>),
                  NextDelegateID := Suc (NextDelegateID s)\<rparr>"
  using assms
  by (auto simp: AddWorldImGuiDelegate_def GetWorldContextProxy_def GetWorldContextProxyOf_def
                 add_ctx_def Let_def case_prod_beta Delegate_Add_sel
           split: option.splits if_splits)

lemma AddEditor_normal:
  assumes "AddEditorImGuiDelegate B s d = Inr (h, s')"
  shows "\<exists>m i. ImGuiModuleManager s = Some m \<and>
           h = \<lparr>Handle = NextDelegateID s, Category = Default, Index = i\<rparr> \<and>
           s' = s\<lparr>ImGuiModuleManager :=
                    Some (m\<lparr>ContextManager := add_ctx (ContextManager m) i d (NextDelegateID s)\<rparr>),
                  NextDelegateID := Suc (NextDelegateID s)\<rparr>"
  using assms
  by (auto simp: AddEditorImGuiDelegate_def GetEditorContextProxy_def
                 add_ctx_def Let_def case_prod_beta Delegate_Add_sel
           split: option.splits if_splits)

lemma AddMultiContext_normal:
  assumes "AddMultiContextImGuiDelegate s d = Inr (h, s')"
  shows "\<exists>m. ImGuiModuleManager s = Some m \<and>
           h = \<lparr>Handle = NextDelegateID s, Category = MultiContext, Index = 0\<rparr> \<and>
           observe s' = effect (AddGlobal d) (observe s)"
  using assms
  by (auto simp: AddMultiContextImGuiDelegate_def Let_def case_prod_beta Delegate_Add_sel
                 observe_def global_entries_def context_entries_def fun_eq_iff GetContextProxy_def
           split: option.splits if_splits)

lemma observe_add_ctx:
  assumes "ImGuiModuleManager s = Some m"
  shows "observe (s\<lparr>ImGuiModuleManager :=
                    Some (m\<lparr>ContextManager := add_ctx (ContextManager m) i d (NextDelegateID s)\<rparr>),
                  NextDelegateID := Suc (NextDelegateID s)\<rparr>)
         = effect (AddContext i d) (observe s)"
  using assms
  by (auto simp: observe_def global_entries_def context_entries_def add_ctx_lookup add_ctx_global
                 fun_eq_iff
           split: option.splits)

lemma observe_Remove:
  "observe (RemoveImGuiDelegate s h) =
     effect (if Category h = MultiContext then RemoveGlobal (Handle h)
             else RemoveContext (Index h) (Handle h)) (observe s)"
  by (auto simp: RemoveImGuiDelegate_def observe_def global_entries_def context_entries_def
                 Let_def GetContextProxy_def StoreContextProxy_def Delegate_Remove_def
                 update_conv' fun_eq_iff
           split: option.splits)

lemma observe_ReleaseWorldContext:
  "observe (ReleaseWorldContext s i) = effect (ReleaseCtx i) (observe s)"
  by (auto simp: ReleaseWorldContext_def observe_def global_entries_def context_entries_def
                 ReleaseContext_def GetContextProxy_def delete_conv' fun_eq_iff
           split: option.splits)

lemma observe_Startup:
  "StartupModule B s = Inr s' \<Longrightarrow> observe s' = effect Keep (observe s)"
  by (auto simp: StartupModule_def observe_def global_entries_def context_entries_def
                 NewModuleManager_def EmptyDelegate_def GetContextProxy_def fun_eq_iff
           split: if_splits)

lemma observe_Shutdown:
  "ShutdownModule B s = Inr s' \<Longrightarrow> observe s' = effect Reset (observe s)"
  by (auto simp: ShutdownModule_def observe_def global_entries_def context_entries_def
                 Let_def fun_eq_iff
           split: if_splits)

lemma observe_AllocateTexture:
  "AllocateTexture s n Texture = Inr (t, s') \<Longrightarrow> observe s' = effect Keep (observe s)"
  by (auto simp: AllocateTexture_def observe_def global_entries_def context_entries_def
                 fun_eq_iff
           split: option.splits prod.splits)

lemma observe_ReleaseTexture:
  "ReleaseTexture s t = Inr s' \<Longrightarrow> observe s' = effect Keep (observe s)"
  by (auto simp: ReleaseTexture_def observe_def global_entries_def context_entries_def
                 fun_eq_iff
           split: option.splits sum.splits if_splits)

lemma step_effect:
  assumes "step B s s'"
  shows "\<exists>ev. observe s' = effect ev (observe s)"
  using assms
proof cases
  case step_Startup
  then show ?thesis using observe_Startup by blast
next
  case step_Shutdown
  then show ?thesis using observe_Shutdown by blast
next
  case (step_AddEditor d h)
  from AddEditor_normal [OF this] show ?thesis using observe_add_ctx by blast
next
  case (step_AddWorld d h)
  from AddWorld_normal [OF this] show ?thesis using observe_add_ctx by blast
next
  case (step_AddMultiContext d h)
  from AddMultiContext_normal [OF this] show ?thesis by blast
next
  case (step_Remove h)
  then show ?thesis using observe_Remove by blast
next
  case (step_ReleaseWorldContext i)
  then show ?thesis using observe_ReleaseWorldContext by blast
next
  case (step_AllocateTexture n Texture t)
  then show ?thesis using observe_AllocateTexture by blast
next
  case (step_ReleaseTexture t)
  then show ?thesis using observe_ReleaseTexture by blast
next
  case (step_SetInputMode b)
  then have "observe s' = effect Keep (observe s)"
    by (simp add: SetInputMode_def observe_def global_entries_def context_entries_def fun_eq_iff)
  then show ?thesis by blast
next
  case (step_SetShowDemo b)
  then have "observe s' = effect Keep (observe s)"
    by (simp add: SetShowDemo_def observe_def global_entries_def context_entries_def fun_eq_iff)
  then show ?thesis by blast
next
  case step_SwitchInputMode
  then have "observe s' = effect Keep (observe s)"
    by (simp add: SwitchImGuiInputMode_def ToggleInputMode_def SetInputMode_def observe_def
                  global_entries_def context_entries_def fun_eq_iff)
  then show ?thesis by blast
next
  case (step_Console v w)
  then have "observe s' = effect Keep (observe s)"
    by (simp add: observe_def global_entries_def context_entries_def fun_eq_iff)
  then show ?thesis by blast
next
  case (step_Engine E)
  then have "observe s' = effect Keep (observe s)"
    by (simp add: observe_def global_entries_def context_entries_def fun_eq_iff)
  then show ?thesis by blast
qed

lemma wf_entries_mono: "wf_entries n es \<Longrightarrow> n \<le> n' \<Longrightarrow> wf_entries n' es"
  by (auto simp: wf_entries_def list_all_iff)

lemma wf_entries_snoc: "wf_entries n es \<Longrightarrow> wf_entries (Suc n) (es @ [(n, d)])"
  by (auto simp: wf_entries_def list_all_iff)

lemma wf_entries_filter: "wf_entries n es \<Longrightarrow> wf_entries n (filter P es)"
  by (auto simp: wf_entries_def list_all_iff distinct_map_filter)

lemma wf_entries_Nil: "wf_entries n []"
  by (simp add: wf_entries_def)

lemma wf_entries_key: "wf_entries n es \<Longrightarrow> e \<in> set es \<Longrightarrow> fst e < n"
  by (simp add: wf_entries_def list_all_iff)

lemma wf_effect: "wf_obs ob \<Longrightarrow> wf_obs (effect ev ob)"
proof (cases ob)
  case (fields n g c)
  assume wf: "wf_obs ob"
  show ?thesis
  proof (cases ev)
    case (AddContext i d)
    have old: "wf_entries n (case c i of None \<Rightarrow> [] | Some es \<Rightarrow> es)"
      using wf fields by (cases "c i") (auto simp: wf_obs_def wf_entries_Nil)
    have "wf_entries (Suc n) ((case c i of None \<Rightarrow> [] | Some es \<Rightarrow> es) @ [(n, d)])"
      using old by (rule wf_entries_snoc)
    moreover have "wf_entries (Suc n) es" if "wf_entries n es" for es
      using that by (rule wf_entries_mono) simp
    ultimately show ?thesis
      using wf fields AddContext by (auto simp: wf_obs_def)
  next
    case (AddGlobal d)
    have "wf_entries (Suc n) es" if "wf_entries n es" for es
      using that by (rule wf_entries_mono) simp
    with wf fields AddGlobal show ?thesis
      by (auto simp: wf_obs_def intro: wf_entries_snoc)
  qed (use wf fields in \<open>auto simp: wf_obs_def wf_entries_Nil intro: wf_entries_filter\<close>)
qed

lemma counter_effect: "fst ob \<le> fst (effect ev ob)"
  by (cases ob; cases ev) auto

lemma stale_effect: "stale_obs h ob \<Longrightarrow> stale_obs h (effect ev ob)"
proof (cases ob)
  case (fields n g c)
  assume st: "stale_obs h ob"
  show ?thesis
  proof (cases ev)
    case (AddContext i d)
    with st fields show ?thesis
      by (cases "c i") (auto simp: stale_obs_def)
  next
    case (RemoveContext i k)
    with st fields show ?thesis
      by (cases "c i") (auto simp: stale_obs_def)
  qed (use st fields in \<open>auto simp: stale_obs_def\<close>)
qed

lemma own_effect: "own_obs h d ob \<Longrightarrow> own_obs h d (effect ev ob)"
proof (cases ob)
  case (fields n g c)
  assume own: "own_obs h d ob"
  show ?thesis
  proof (cases ev)
    case (AddContext i d')
    with own fields show ?thesis
      by (cases "c i") (auto simp: own_obs_def)
  next
    case (RemoveContext i k)
    with own fields show ?thesis
      by (cases "c i") (auto simp: own_obs_def)
  qed (use own fields in \<open>auto simp: own_obs_def\<close>)
qed

lemma steps_invariant:
  assumes "(step B)\<^sup>*\<^sup>* s s'" and "P (observe s)"
    and "\<And>ob ev. P ob \<Longrightarrow> P (effect ev ob)"
  shows "P (observe s')"
  using assms(1,2)
proof (induction rule: rtranclp_induct)
  case base
  then show ?case .
next
  case (step y z)
  from step_effect [OF step.hyps(2)] obtain ev where "observe z = effect ev (observe y)" ..
  with step.IH [OF step.prems] assms(3) show ?case by simp
qed

lemma steps_counter:
  assumes "(step B)\<^sup>*\<^sup>* s s'"
  shows "NextDelegateID s \<le> NextDelegateID s'"
proof -
  have "NextDelegateID s \<le> fst (observe s')"
    using assms
  proof (rule steps_invariant)
    show "NextDelegateID s \<le> fst (observe s)" by (simp add: observe_def)
  next
    fix ob :: obs and ev assume "NextDelegateID s \<le> fst ob"
    with counter_effect [of ob ev] show "NextDelegateID s \<le> fst (effect ev ob)" by simp
  qed
  then show ?thesis by (simp add: observe_def)
qed

lemma wf_unloaded: "ImGuiModuleManager s = None \<Longrightarrow> wf_obs (observe s)"
  by (simp add: wf_obs_def observe_def global_entries_def context_entries_def wf_entries_Nil)

lemma issues_effect:
  assumes "issues B s d h s'"
  shows "Handle h = NextDelegateID s \<and>
         observe s' =
           effect (if Category h = MultiContext then AddGlobal d else AddContext (Index h) d)
             (observe s)"
  using assms unfolding issues_def
proof (elim disjE)
  assume "AddEditorImGuiDelegate B s d = Inr (h, s')"
  from AddEditor_normal [OF this] show ?thesis using observe_add_ctx by auto
next
  assume "AddWorldImGuiDelegate B s d = Inr (h, s')"
  from AddWorld_normal [OF this] show ?thesis using observe_add_ctx by auto
next
  assume "AddMultiContextImGuiDelegate s d = Inr (h, s')"
  from AddMultiContext_normal [OF this] show ?thesis by auto
qed

lemma issues_own:
  assumes "issues B s d h s'" and "wf_obs (observe s)"
  shows "own_obs h d (observe s')"
proof -
  obtain n g c where ob: "observe s = (n, g, c)" by (cases "observe s")
  then have n: "n = NextDelegateID s" by (simp add: observe_def)
  from assms(2) ob have below: "\<And>e. e \<in> set g \<Longrightarrow> fst e < n"
    "\<And>i es e. c i = Some es \<Longrightarrow> e \<in> set es \<Longrightarrow> fst e < n"
    by (auto simp: wf_obs_def dest: wf_entries_key)
  from issues_effect [OF assms(1)] ob n have key: "Handle h = n"
    and eff: "observe s' =
      effect (if Category h = MultiContext then AddGlobal d else AddContext (Index h) d) (n, g, c)"
    by simp_all
  show ?thesis
  proof (cases "Category h = MultiContext")
    case True
    with eff key below show ?thesis
      by (fastforce simp: own_obs_def)
  next
    case False
    then have cat: "Category h = Default" by (cases "Category h") simp_all
    show ?thesis
    proof (cases "c (Index h)")
      case None
      with eff key below cat show ?thesis
        by (fastforce simp: own_obs_def)
    next
      case (Some es)
      with eff key below cat show ?thesis
        by (fastforce simp: own_obs_def)
    qed
  qed
qed

lemma issues_present:
  assumes "issues B s d h s'"
  shows "\<exists>es. designated s' h = Some (es @ [(Handle h, d)])"
  using issues_effect [OF assms]
  by (cases "Category h = MultiContext"; cases "context_entries s (Index h)")
     (auto simp: designated_def observe_def)

lemma filter_key_absent: "k \<notin> fst ` set es \<Longrightarrow> filter (\<lambda>e. fst e \<noteq> k) es = es"
  by (induction es) auto

lemma filter_key_distinct:
  assumes "distinct (map fst es)" and "(k, v) \<in> set es"
  shows "\<exists>xs ys. es = xs @ (k, v) # ys \<and> filter (\<lambda>e. fst e \<noteq> k) es = xs @ ys"
proof -
  from assms(2) obtain xs ys where es: "es = xs @ (k, v) # ys"
    by (auto simp: in_set_conv_decomp)
  with assms(1) have "k \<notin> fst ` set xs" "k \<notin> fst ` set ys" by auto
  then have "filter (\<lambda>e. fst e \<noteq> k) es = xs @ ys"
    using es by (simp add: filter_key_absent)
  with es show ?thesis by blast
qed

lemma designated_Remove:
  "designated (RemoveImGuiDelegate s h) h
     = map_option (filter (\<lambda>e. fst e \<noteq> Handle h)) (designated s h)"
  using observe_Remove [of s h]
  by (cases "Category h = MultiContext") (auto simp: designated_def observe_def fun_eq_iff)

lemma others_Remove:
  "(Category h = MultiContext \<or> j \<noteq> Index h \<longrightarrow>
      context_entries (RemoveImGuiDelegate s h) j = context_entries s j) \<and>
   (Category h \<noteq> MultiContext \<longrightarrow>
      global_entries (RemoveImGuiDelegate s h) = global_entries s) \<and>
   NextDelegateID (RemoveImGuiDelegate s h) = NextDelegateID s"
  using observe_Remove [of s h]
  by (cases "Category h = MultiContext") (auto simp: observe_def fun_eq_iff)

lemma Remove_absent_key:
  assumes "Category h = Default"
    and "\<And>es. context_entries s (Index h) = Some es \<Longrightarrow> Handle h \<notin> fst ` set es"
  shows "RemoveImGuiDelegate s h = s"
proof (cases "ImGuiModuleManager s")
  case None
  then show ?thesis by (simp add: RemoveImGuiDelegate_def)
next
  case (Some m)
  show ?thesis
  proof (cases "GetContextProxy (ContextManager m) (Index h)")
    case None
    with Some assms(1) show ?thesis by (simp add: RemoveImGuiDelegate_def)
  next
    case (Some Proxy)
    with \<open>ImGuiModuleManager s = Some m\<close> have "context_entries s (Index h) = Some (Entries (OnDraw Proxy))"
      by (simp add: context_entries_def)
    from assms(2) [OF this] have "Delegate_Remove (OnDraw Proxy) (Handle h) = OnDraw Proxy"
      by (simp add: Delegate_Remove_def filter_key_absent)
    moreover have "StoreContextProxy (ContextManager m) (Index h) Proxy = ContextManager m"
      using Some by (simp add: StoreContextProxy_def GetContextProxy_def update_triv)
    moreover have "s\<lparr>ImGuiModuleManager := Some m\<rparr> = s"
      using \<open>ImGuiModuleManager s = Some m\<close> by (cases s) simp
    ultimately show ?thesis
      using Some \<open>ImGuiModuleManager s = Some m\<close> assms(1)
      by (simp add: RemoveImGuiDelegate_def)
  qed
qed

subsection \<open>Adding\<close>

lemma AddWorld_Started:
  "AddWorldImGuiDelegate SampleBuild Started 7 =
     Inr (\<lparr>Handle = 0, Category = Default, Index = - 2\<rparr>, OneDelegate)"
  by (simp add: AddWorldImGuiDelegate_def GetWorldContextProxy_def GetWorldContextProxyOf_def
                GetOrCreateContextProxy_def StoreContextProxy_def Delegate_Add_def
                SampleBuild_def Unloaded_def Started_def NewModuleManager_def EmptyDelegate_def OneDelegate_def)

lemma AddWorld_OneDelegate:
  "AddWorldImGuiDelegate SampleBuild OneDelegate 8 =
     Inr (\<lparr>Handle = 1, Category = Default, Index = - 2\<rparr>, TwoDelegates)"
  by (simp add: AddWorldImGuiDelegate_def GetWorldContextProxy_def GetWorldContextProxyOf_def
                GetOrCreateContextProxy_def StoreContextProxy_def Delegate_Add_def
                SampleBuild_def Unloaded_def Started_def NewModuleManager_def EmptyDelegate_def OneDelegate_def
                TwoDelegates_def)

lemma Release_OneDelegate:
  "ReleaseWorldContext OneDelegate (- 2) = Started\<lparr>NextDelegateID := 1\<rparr>"
  by (simp add: ReleaseWorldContext_def ReleaseContext_def Unloaded_def Started_def NewModuleManager_def EmptyDelegate_def
                OneDelegate_def)

lemma AddWorld_Released:
  "AddWorldImGuiDelegate SampleBuild (Started\<lparr>NextDelegateID := 1\<rparr>) 8 =
     Inr (\<lparr>Handle = 1, Category = Default, Index = - 2\<rparr>, Recreated)"
  by (simp add: AddWorldImGuiDelegate_def GetWorldContextProxy_def GetWorldContextProxyOf_def
                GetOrCreateContextProxy_def StoreContextProxy_def Delegate_Add_def
                SampleBuild_def Unloaded_def Started_def NewModuleManager_def EmptyDelegate_def Recreated_def)

lemma AddWorld_StartedInEditor:
  "AddWorldImGuiDelegate SampleEditorBuild StartedInEditor 7 =
     Inr (\<lparr>Handle = 0, Category = Default, Index = 3\<rparr>, OneDelegateInEditor)"
  by (simp add: AddWorldImGuiDelegate_def GetWorldContextProxy_def GetWorldContextProxyOf_def
                GetOrCreateContextProxy_def StoreContextProxy_def Delegate_Add_def
                SampleEditorBuild_def Unloaded_def Started_def NewModuleManager_def EmptyDelegate_def StartedInEditor_def
                OneDelegateInEditor_def)

text \<open>
  Claim C3, as amended. Adding a Default-category delegate never fails for want of a live
  context. \<open>AddWorldImGuiDelegate\<close> fails only on a null module manager and, in the build
  with editor, on a null engine pointer or when no current world is found;
  \<open>AddEditorImGuiDelegate\<close> fails only on a null module manager. Otherwise the call gets or
  creates the target context, appends the callback to its sequence under the next key (the
  sequence starts empty when the context was not live), returns a Default handle with that
  key and index, and leaves every other sequence as it was.
\<close>

theorem AddWorldImGuiDelegate_outcome:
  "(case AddWorldImGuiDelegate B s d of
      Inl e \<Rightarrow>
        (e = NullModuleManager \<and> ImGuiModuleManager s = None) \<or>
        (e = NullGEngine \<and> WITH_EDITOR B \<and> GEngine s = None) \<or>
        (e = NoCurrentWorld \<and> WITH_EDITOR B \<and>
           (\<exists>E. GEngine s = Some E \<and> GameViewportWorldContext E = None \<and>
                DedicatedServerWorldContext E = None))
    | Inr (h, s') \<Rightarrow>
        ImGuiModuleManager s \<noteq> None \<and> Category h = Default \<and> Handle h = NextDelegateID s \<and>
        (\<not> WITH_EDITOR B \<longrightarrow> Index h = STANDALONE_GAME_CONTEXT_INDEX B) \<and>
        context_entries s' (Index h) =
          Some ((case context_entries s (Index h) of None \<Rightarrow> [] | Some es \<Rightarrow> es) @ [(Handle h, d)]) \<and>
        (\<forall>j. j \<noteq> Index h \<longrightarrow> context_entries s' j = context_entries s j) \<and>
        global_entries s' = global_entries s) \<and>
   (case AddEditorImGuiDelegate B s d of
      Inl e \<Rightarrow> e = NullModuleManager \<and> ImGuiModuleManager s = None
    | Inr (h, s') \<Rightarrow>
        ImGuiModuleManager s \<noteq> None \<and> Category h = Default \<and> Handle h = NextDelegateID s \<and>
        Index h = EDITOR_CONTEXT_INDEX B \<and>
        context_entries s' (Index h) =
          Some ((case context_entries s (Index h) of None \<Rightarrow> [] | Some es \<Rightarrow> es) @ [(Handle h, d)]) \<and>
        (\<forall>j. j \<noteq> Index h \<longrightarrow> context_entries s' j = context_entries s j) \<and>
        global_entries s' = global_entries s)"
proof (intro conjI)
  show "case AddWorldImGuiDelegate B s d of
      Inl e \<Rightarrow>
        (e = NullModuleManager \<and> ImGuiModuleManager s = None) \<or>
        (e = NullGEngine \<and> WITH_EDITOR B \<and> GEngine s = None) \<or>
        (e = NoCurrentWorld \<and> WITH_EDITOR B \<and>
           (\<exists>E. GEngine s = Some E \<and> GameViewportWorldContext E = None \<and>
                DedicatedServerWorldContext E = None))
    | Inr (h, s') \<Rightarrow>
        ImGuiModuleManager s \<noteq> None \<and> Category h = Default \<and> Handle h = NextDelegateID s \<and>
        (\<not> WITH_EDITOR B \<longrightarrow> Index h = STANDALONE_GAME_CONTEXT_INDEX B) \<and>
        context_entries s' (Index h) =
          Some ((case context_entries s (Index h) of None \<Rightarrow> [] | Some es \<Rightarrow> es) @ [(Handle h, d)]) \<and>
        (\<forall>j. j \<noteq> Index h \<longrightarrow> context_entries s' j = context_entries s j) \<and>
        global_entries s' = global_entries s"
  proof (cases "AddWorldImGuiDelegate B s d")
    case (Inl e)
    then show ?thesis
      by (auto simp: AddWorldImGuiDelegate_def Let_def case_prod_beta
               split: option.splits if_splits)
  next
    case (Inr r)
    obtain h s' where r: "r = (h, s')" by (cases r)
    from AddWorld_normal [OF Inr [unfolded r]] obtain m i where n:
      "ImGuiModuleManager s = Some m"
      "h = \<lparr>Handle = NextDelegateID s, Category = Default, Index = i\<rparr>"
      "s' = s\<lparr>ImGuiModuleManager :=
                Some (m\<lparr>ContextManager := add_ctx (ContextManager m) i d (NextDelegateID s)\<rparr>),
              NextDelegateID := Suc (NextDelegateID s)\<rparr>"
      by blast
    have std: "Index h = STANDALONE_GAME_CONTEXT_INDEX B" if "\<not> WITH_EDITOR B"
      using Inr r that n(1)
      by (auto simp: AddWorldImGuiDelegate_def Let_def case_prod_beta)
    from observe_add_ctx [OF n(1), of i d] n have
      "observe s' = effect (AddContext (Index h) d) (observe s)" by simp
    then show ?thesis
      using Inr r n(1,2) std by (auto simp: observe_def)
  qed
next
  show "case AddEditorImGuiDelegate B s d of
      Inl e \<Rightarrow> e = NullModuleManager \<and> ImGuiModuleManager s = None
    | Inr (h, s') \<Rightarrow>
        ImGuiModuleManager s \<noteq> None \<and> Category h = Default \<and> Handle h = NextDelegateID s \<and>
        Index h = EDITOR_CONTEXT_INDEX B \<and>
        context_entries s' (Index h) =
          Some ((case context_entries s (Index h) of None \<Rightarrow> [] | Some es \<Rightarrow> es) @ [(Handle h, d)]) \<and>
        (\<forall>j. j \<noteq> Index h \<longrightarrow> context_entries s' j = context_entries s j) \<and>
        global_entries s' = global_entries s"
  proof (cases "AddEditorImGuiDelegate B s d")
    case (Inl e)
    then show ?thesis
      by (auto simp: AddEditorImGuiDelegate_def Let_def case_prod_beta split: option.splits)
  next
    case (Inr r)
    obtain h s' where r: "r = (h, s')" by (cases r)
    from AddEditor_normal [OF Inr [unfolded r]] obtain m i where n:
      "ImGuiModuleManager s = Some m"
      "h = \<lparr>Handle = NextDelegateID s, Category = Default, Index = i\<rparr>"
      "s' = s\<lparr>ImGuiModuleManager :=
                Some (m\<lparr>ContextManager := add_ctx (ContextManager m) i d (NextDelegateID s)\<rparr>),
              NextDelegateID := Suc (NextDelegateID s)\<rparr>"
      by blast
    have ed: "Index h = EDITOR_CONTEXT_INDEX B"
      using Inr r n(1)
      by (auto simp: AddEditorImGuiDelegate_def Let_def case_prod_beta)
    from observe_add_ctx [OF n(1), of i d] n have
      "observe s' = effect (AddContext (Index h) d) (observe s)" by simp
    then show ?thesis
      using Inr r n(1,2) ed by (auto simp: observe_def)
  qed
qed

theorem AddWorldImGuiDelegate_outcome_witness:
  "AddWorldImGuiDelegate SampleEditorBuild StartedInEditor 7 =
     Inr (\<lparr>Handle = 0, Category = Default, Index = 3\<rparr>, OneDelegateInEditor) \<and>
   context_entries StartedInEditor 3 = None \<and>
   context_entries OneDelegateInEditor 3 = Some [(0, 7)]"
proof -
  have none: "context_entries StartedInEditor 3 = None"
    by (simp add: context_entries_def GetContextProxy_def Unloaded_def Started_def NewModuleManager_def EmptyDelegate_def
                  StartedInEditor_def)
  from AddWorldImGuiDelegate_outcome [where B = SampleEditorBuild and s = StartedInEditor and d = 7]
  have "context_entries OneDelegateInEditor 3 = Some [(0, 7)]"
    by (simp add: AddWorld_StartedInEditor none)
  with none show ?thesis by (simp add: AddWorld_StartedInEditor)
qed

text \<open>
  Claim C3, as stated, fails: in the build without editor, with no context live under the
  standalone index, the call returns a handle and the context is live afterwards.
\<close>

theorem AddWorldImGuiDelegate_creates_context:
  "context_entries Started (- 2) = None \<and>
   STANDALONE_GAME_CONTEXT_INDEX SampleBuild = - 2 \<and>
   AddWorldImGuiDelegate SampleBuild Started 7 =
     Inr (\<lparr>Handle = 0, Category = Default, Index = - 2\<rparr>, OneDelegate) \<and>
   context_entries OneDelegate (- 2) = Some [(0, 7)]"
proof -
  have "context_entries Started (- 2) = None"
    by (simp add: context_entries_def GetContextProxy_def Unloaded_def Started_def NewModuleManager_def EmptyDelegate_def)
  moreover have "STANDALONE_GAME_CONTEXT_INDEX SampleBuild = - 2"
    by (simp add: SampleBuild_def)
  moreover have "context_entries OneDelegate (- 2) = Some [(0, 7)]"
    by (simp add: context_entries_def GetContextProxy_def Unloaded_def Started_def NewModuleManager_def EmptyDelegate_def
                  OneDelegate_def)
  ultimately show ?thesis
    using AddWorld_Started by simp
qed

subsection \<open>Removing\<close>

text \<open>
  Claim C4. A Default handle is issued, the module takes any number of steps, the handle's
  context is released, and the module takes any number of further steps, among them
  perhaps the creation of a new context under the same index. The context is not live right
  after the release, and \<open>RemoveImGuiDelegate\<close> with the handle then returns the state it
  was given: no sequence of any context, reused or not, loses an entry.
\<close>

theorem Remove_after_context_release:
  assumes "issues B s d h s1" and "Category h = Default"
    and "(step B)\<^sup>*\<^sup>* s1 s2"
    and "(step B)\<^sup>*\<^sup>* (ReleaseWorldContext s2 (Index h)) s3"
  shows "context_entries (ReleaseWorldContext s2 (Index h)) (Index h) = None \<and>
         RemoveImGuiDelegate s3 h = s3"
proof -
  from issues_effect [OF assms(1)] have "Handle h < NextDelegateID s1"
    by (auto simp: observe_def split: if_splits)
  with steps_counter [OF assms(3)] have issued: "Handle h < NextDelegateID s2" by simp
  have gone: "context_entries (ReleaseWorldContext s2 (Index h)) (Index h) = None"
    using observe_ReleaseWorldContext [of s2 "Index h"] by (simp add: observe_def)
  have "stale_obs h (observe (ReleaseWorldContext s2 (Index h)))"
    using issued observe_ReleaseWorldContext [of s2 "Index h"]
    by (simp add: stale_obs_def observe_def)
  with assms(4) have "stale_obs h (observe s3)"
    by (rule steps_invariant) (rule stale_effect)
  then have "\<And>es. context_entries s3 (Index h) = Some es \<Longrightarrow> Handle h \<notin> fst ` set es"
    by (simp add: stale_obs_def observe_def)
  with assms(2) have "RemoveImGuiDelegate s3 h = s3"
    by (rule Remove_absent_key)
  with gone show ?thesis by simp
qed

theorem Remove_after_context_release_witness:
  "issues SampleBuild Started 7 \<lparr>Handle = 0, Category = Default, Index = - 2\<rparr> OneDelegate \<and>
   (step SampleBuild)\<^sup>*\<^sup>* OneDelegate OneDelegate \<and>
   (step SampleBuild)\<^sup>*\<^sup>* (ReleaseWorldContext OneDelegate (- 2)) Recreated \<and>
   context_entries Recreated (- 2) = Some [(1, 8)] \<and>
   RemoveImGuiDelegate Recreated \<lparr>Handle = 0, Category = Default, Index = - 2\<rparr> = Recreated"
proof -
  let ?h = "\<lparr>Handle = 0, Category = Default, Index = - 2\<rparr>"
  have i: "issues SampleBuild Started 7 ?h OneDelegate"
    by (simp add: issues_def AddWorld_Started)
  have c: "Category ?h = Default" by simp
  have a: "(step SampleBuild)\<^sup>*\<^sup>* OneDelegate OneDelegate" by simp
  have "step SampleBuild (Started\<lparr>NextDelegateID := 1\<rparr>) Recreated"
    using AddWorld_Released by (rule step_AddWorld)
  then have b: "(step SampleBuild)\<^sup>*\<^sup>* (ReleaseWorldContext OneDelegate (Index ?h)) Recreated"
    by (simp add: Release_OneDelegate)
  have e: "context_entries Recreated (- 2) = Some [(1, 8)]"
    by (simp add: context_entries_def GetContextProxy_def Unloaded_def Started_def NewModuleManager_def EmptyDelegate_def
                  Recreated_def)
  from Remove_after_context_release [OF i c a b] i a b e show ?thesis by simp
qed

text \<open>
  Claim C6. The module is loaded from the unloaded state and takes any number of steps; a
  handle is issued for callback \<open>d\<close>, whose entry is then the last of the sequence the handle
  designates; any number of steps follow. \<open>RemoveImGuiDelegate\<close> with the handle then
  leaves every sequence but the designated one as it was (for a multi-context handle, the
  sequence of every context; for a Default handle, the global sequence and every other
  context's), and from the designated sequence it removes the one entry of \<open>d\<close> under the
  handle's key if it is still there and nothing otherwise.
\<close>

theorem Remove_removes_exactly_its_entry:
  assumes "ImGuiModuleManager s0 = None" and "(step B)\<^sup>*\<^sup>* s0 s"
    and "issues B s d h s1" and "(step B)\<^sup>*\<^sup>* s1 s2"
  shows "(\<exists>es. designated s1 h = Some (es @ [(Handle h, d)])) \<and>
         (\<forall>j. Category h = MultiContext \<or> j \<noteq> Index h \<longrightarrow>
              context_entries (RemoveImGuiDelegate s2 h) j = context_entries s2 j) \<and>
         (Category h \<noteq> MultiContext \<longrightarrow>
            global_entries (RemoveImGuiDelegate s2 h) = global_entries s2) \<and>
         (case designated s2 h of
            None \<Rightarrow> designated (RemoveImGuiDelegate s2 h) h = None
          | Some es \<Rightarrow>
              if (Handle h, d) \<in> set es
              then \<exists>xs ys. es = xs @ (Handle h, d) # ys \<and>
                     designated (RemoveImGuiDelegate s2 h) h = Some (xs @ ys)
              else designated (RemoveImGuiDelegate s2 h) h = Some es)"
proof -
  have wf: "wf_obs (observe s)"
    using assms(2) wf_unloaded [OF assms(1)] by (rule steps_invariant) (rule wf_effect)
  then have "wf_obs (observe s1)"
    using issues_effect [OF assms(3)] by (simp add: wf_effect)
  with assms(4) have wf2: "wf_obs (observe s2)"
    by (rule steps_invariant) (rule wf_effect)
  have "own_obs h d (observe s1)"
    using assms(3) wf by (rule issues_own)
  with assms(4) have own2: "own_obs h d (observe s2)"
    by (rule steps_invariant) (rule own_effect)
  have main: "if (Handle h, d) \<in> set es
              then \<exists>xs ys. es = xs @ (Handle h, d) # ys \<and>
                     designated (RemoveImGuiDelegate s2 h) h = Some (xs @ ys)
              else designated (RemoveImGuiDelegate s2 h) h = Some es"
    if des: "designated s2 h = Some es" for es
  proof -
    have dist: "distinct (map fst es)"
      using wf2 des
      by (auto simp: wf_obs_def observe_def designated_def wf_entries_def split: if_splits)
    have only: "e = (Handle h, d)" if "e \<in> set es" "fst e = Handle h" for e
    proof (cases "Category h = MultiContext")
      case True
      with own2 des that show ?thesis
        by (cases e) (fastforce simp: own_obs_def observe_def designated_def)
    next
      case False
      with des have "context_entries s2 (Index h) = Some es" by (simp add: designated_def)
      with own2 that show ?thesis
        by (cases e) (fastforce simp: own_obs_def observe_def)
    qed
    show ?thesis
    proof (cases "(Handle h, d) \<in> set es")
      case True
      from filter_key_distinct [OF dist True] show ?thesis
        using True des by (simp add: designated_Remove)
    next
      case False
      with only have "Handle h \<notin> fst ` set es" by force
      then show ?thesis
        using False des by (simp add: designated_Remove filter_key_absent)
    qed
  qed
  show ?thesis
    using issues_present [OF assms(3)] others_Remove [of h _ s2] main
    by (auto simp: designated_Remove split: option.splits)
qed

theorem Remove_removes_exactly_its_entry_witness:
  "ImGuiModuleManager Unloaded = None \<and>
   (step SampleBuild)\<^sup>*\<^sup>* Unloaded Started \<and>
   issues SampleBuild Started 7 \<lparr>Handle = 0, Category = Default, Index = - 2\<rparr> OneDelegate \<and>
   (step SampleBuild)\<^sup>*\<^sup>* OneDelegate TwoDelegates \<and>
   designated TwoDelegates \<lparr>Handle = 0, Category = Default, Index = - 2\<rparr> = Some [(0, 7), (1, 8)] \<and>
   designated (RemoveImGuiDelegate TwoDelegates \<lparr>Handle = 0, Category = Default, Index = - 2\<rparr>)
     \<lparr>Handle = 0, Category = Default, Index = - 2\<rparr> = Some [(1, 8)]"
proof -
  let ?h = "\<lparr>Handle = 0, Category = Default, Index = - 2\<rparr>"
  have u: "ImGuiModuleManager Unloaded = None" by (simp add: Unloaded_def)
  have "StartupModule SampleBuild Unloaded = Inr Started"
    by (simp add: StartupModule_def SampleBuild_def Unloaded_def Started_def)
  then have "step SampleBuild Unloaded Started" by (rule step_Startup)
  then have a: "(step SampleBuild)\<^sup>*\<^sup>* Unloaded Started" by (rule r_into_rtranclp)
  have i: "issues SampleBuild Started 7 ?h OneDelegate"
    by (simp add: issues_def AddWorld_Started)
  have "step SampleBuild OneDelegate TwoDelegates"
    using AddWorld_OneDelegate by (rule step_AddWorld)
  then have b: "(step SampleBuild)\<^sup>*\<^sup>* OneDelegate TwoDelegates" by (rule r_into_rtranclp)
  have d: "designated TwoDelegates ?h = Some [(0, 7), (1, 8)]"
    by (simp add: designated_def context_entries_def GetContextProxy_def Unloaded_def Started_def NewModuleManager_def EmptyDelegate_def
                  TwoDelegates_def)
  from Remove_removes_exactly_its_entry [OF u a i b]
  have "\<exists>xs ys. [(0, 7), (1, 8)] = xs @ (0, 7) # ys \<and>
          designated (RemoveImGuiDelegate TwoDelegates ?h) ?h = Some (xs @ ys)"
    by (simp add: d)
  then have "designated (RemoveImGuiDelegate TwoDelegates ?h) ?h = Some [(1::nat, 8::nat)]"
    by (auto simp: Cons_eq_append_conv)
  with u a i b d show ?thesis by simp
qed

end
